theory Spec2Isabelle
  imports Main "HOL-Library.AList" "HOL-Library.Char_ord" "HOL-Library.List_Lexorder" "HOL-Library.Multiset"
begin

section \<open>Constants of the four server programs\<close>

text \<open>
  The coordinator is \<^verbatim>\<open>S1.c\<close>; the storage nodes are the PDF node (S2), \<^verbatim>\<open>S3.c\<close>
  (identical to S2 up to its tag, port and extension) and \<^verbatim>\<open>S4.c\<close>.
  Bytes and C characters are \<^typ>\<open>char\<close>, buffers and byte streams are \<^typ>\<open>string\<close>.
  Fixed-size C buffers written by \<^verbatim>\<open>strcpy\<close>/\<open>strcat\<close> are taken to be large enough
  (overflowing them is undefined in C); \<^verbatim>\<open>snprintf\<close> truncation is modelled.
\<close>

definition BUFFER_SIZE :: nat where "BUFFER_SIZE = 8192"
definition MAX_PATH_LEN :: nat where "MAX_PATH_LEN = 1024"
definition MAX_FILES :: nat where "MAX_FILES = 1000"
definition S2_PORT :: nat where "S2_PORT = 8001"
definition S3_PORT :: nat where "S3_PORT = 8002"
definition S4_PORT :: nat where "S4_PORT = 8003"

section \<open>C string helpers\<close>

definition cstr :: "string \<Rightarrow> string" where
  \<comment> \<open>the C string held by a buffer: the bytes before the first NUL\<close>
  "cstr buf = takeWhile (\<lambda>c. c \<noteq> CHR 0x00) buf"

definition snprintf :: "nat \<Rightarrow> string \<Rightarrow> string" where
  \<comment> \<open>\<^verbatim>\<open>snprintf(buf, n, ...)\<close> keeps at most \<open>n - 1\<close> characters of the formatted text\<close>
  "snprintf n s = take (n - 1) s"

definition strrchr :: "char \<Rightarrow> string \<Rightarrow> nat option" where
  \<comment> \<open>index of the last occurrence\<close>
  "strrchr c s =
     (if c \<in> set s then Some (length s - Suc (length (takeWhile (\<lambda>x. x \<noteq> c) (rev s))))
      else None)"

fun split_on :: "(char \<Rightarrow> bool) \<Rightarrow> string \<Rightarrow> string list" where
  "split_on d [] = [[]]"
| "split_on d (c # cs) =
     (if d c then [] # split_on d cs
      else (case split_on d cs of [] \<Rightarrow> [[c]] | w # ws \<Rightarrow> (c # w) # ws))"

definition tokens :: "(char \<Rightarrow> bool) \<Rightarrow> string \<Rightarrow> string list" where
  \<comment> \<open>the successive results of \<^verbatim>\<open>strtok\<close>: maximal runs of non-delimiters\<close>
  "tokens d s = filter (\<lambda>w. w \<noteq> []) (split_on d s)"

definition is_space :: "char \<Rightarrow> bool" where
  "is_space c = (c = CHR '' '')"

definition is_newline :: "char \<Rightarrow> bool" where
  "is_newline c = (c = CHR 0x0A)"

definition c_isspace :: "char \<Rightarrow> bool" where
  \<comment> \<open>the white space skipped by \<^verbatim>\<open>sscanf\<close>'s \<open>%s\<close>\<close>
  "c_isspace c = (c \<in> {CHR '' '', CHR 0x09, CHR 0x0A, CHR 0x0B, CHR 0x0C, CHR 0x0D})"

function show_nat :: "nat \<Rightarrow> string" where
  \<comment> \<open>\<^verbatim>\<open>%d\<close> of a non-negative number\<close>
  "show_nat n =
     (if n < 10 then [char_of (48 + n)]
      else show_nat (n div 10) @ [char_of (48 + n mod 10)])"
  by pat_completeness auto
termination
  by (relation "measure id") auto

declare show_nat.simps [simp del]

section \<open>Placement policy (S1.c)\<close>

definition get_file_extension :: "string \<Rightarrow> string" where
  "get_file_extension filename =
     (case strrchr CHR ''.'' filename of
        None \<Rightarrow> []
      | Some i \<Rightarrow> if i = 0 then [] else drop i filename)"

definition get_server_for_file :: "string \<Rightarrow> int" where
  "get_server_for_file filepath =
     (let ext = get_file_extension filepath in
      if ext = ''.c'' then 1
      else if ext = ''.pdf'' then 2
      else if ext = ''.txt'' then 3
      else if ext = ''.zip'' then 4
      else -1)"

definition convert_path_for_server :: "string \<Rightarrow> string \<Rightarrow> string" where
  "convert_path_for_server s1_path server_name = ''~'' @ server_name @ drop 3 s1_path"

section \<open>File system\<close>

text \<open>
  All four programs run on one machine and share \<^verbatim>\<open>$HOME\<close>. Regular files are an
  association list from path to content, in directory order; directories are a list of
  paths. Both are kept under the normal form of the path: as the kernel resolves it,
  repeated slashes, a trailing slash and a component \<^verbatim>\<open>.\<close> do not change the entry a path
  names, while a path that ends in a slash or in \<^verbatim>\<open>.\<close> names nothing but a directory.
  A component \<^verbatim>\<open>..\<close>, symbolic links and the working directory are not modelled: such a
  path is taken as written. A name has at most \<^verbatim>\<open>NAME_MAX\<close> bytes.
\<close>

definition NAME_MAX :: nat where "NAME_MAX = 255"

record fs =
  files :: "(string \<times> string) list"
  dirs :: "string list"

definition is_slash :: "char \<Rightarrow> bool" where
  "is_slash c = (c = CHR ''/'')"

definition norm_path :: "string \<Rightarrow> string" where
  \<comment> \<open>the components that name something, joined by single slashes\<close>
  "norm_path p =
     (let cs = filter (\<lambda>c. c \<noteq> ''.'') (tokens is_slash p);
          joined = concat (map (\<lambda>c. CHR ''/'' # c) cs)
      in if p = [] then []
         else if hd p = CHR ''/'' then (if cs = [] then ''/'' else joined)
         else (if cs = [] then ''.'' else tl joined))"

definition dir_form :: "string \<Rightarrow> bool" where
  \<comment> \<open>the path ends in a slash or in a component \<^verbatim>\<open>.\<close>\<close>
  "dir_form p = (p \<noteq> [] \<and> (last p = CHR ''/'' \<or> last (split_on is_slash p) = ''.''))"

definition is_dir :: "fs \<Rightarrow> string \<Rightarrow> bool" where
  \<comment> \<open>\<^verbatim>\<open>stat(p) == 0 && S_ISDIR\<close>, \<^verbatim>\<open>opendir(p) != NULL\<close>\<close>
  "is_dir f p = (p \<noteq> [] \<and> norm_path p \<in> set (dirs f))"

definition is_file :: "fs \<Rightarrow> string \<Rightarrow> bool" where
  "is_file f p = (p \<noteq> [] \<and> \<not> dir_form p \<and> map_of (files f) (norm_path p) \<noteq> None)"

definition path_exists :: "fs \<Rightarrow> string \<Rightarrow> bool" where
  \<comment> \<open>\<^verbatim>\<open>stat(p) == 0\<close>, \<^verbatim>\<open>access(p, F_OK) == 0\<close>\<close>
  "path_exists f p = (is_file f p \<or> is_dir f p)"

definition parent_dir :: "string \<Rightarrow> string" where
  "parent_dir p =
     (case strrchr CHR ''/'' p of
        None \<Rightarrow> ''.''
      | Some i \<Rightarrow> if i = 0 then ''/'' else take i p)"

definition base_name :: "string \<Rightarrow> string" where
  "base_name p = (case strrchr CHR ''/'' p of None \<Rightarrow> p | Some i \<Rightarrow> drop (Suc i) p)"

definition fopen_rb :: "fs \<Rightarrow> string \<Rightarrow> string option" where
  "fopen_rb f p = (if is_file f p then map_of (files f) (norm_path p) else None)"

definition can_create :: "fs \<Rightarrow> string \<Rightarrow> bool" where
  \<comment> \<open>\<^verbatim>\<open>fopen(p, "wb")\<close> succeeds: the directory is there, the name is not too long and
      \<open>p\<close> is not a directory itself\<close>
  "can_create f p =
     (p \<noteq> [] \<and> \<not> dir_form p \<and> is_dir f (parent_dir (norm_path p)) \<and> \<not> is_dir f p
      \<and> length (base_name (norm_path p)) \<le> NAME_MAX)"

definition write_file :: "fs \<Rightarrow> string \<Rightarrow> string \<Rightarrow> fs" where
  \<comment> \<open>the file after \<^verbatim>\<open>fopen(p, "wb")\<close>, the \<^verbatim>\<open>fwrite\<close>s and \<^verbatim>\<open>fclose\<close>\<close>
  "write_file f p content = f\<lparr>files := AList.update (norm_path p) content (files f)\<rparr>"

definition unlink :: "fs \<Rightarrow> string \<Rightarrow> int \<times> fs" where
  "unlink f p =
     (if is_file f p then (0, f\<lparr>files := AList.delete (norm_path p) (files f)\<rparr>) else (-1, f))"

definition mkdir :: "fs \<Rightarrow> string \<Rightarrow> fs" where
  \<comment> \<open>fails where something of that name exists, where the parent directory is missing,
      for a last component \<^verbatim>\<open>.\<close> and for a name that is too long\<close>
  "mkdir f p =
     (if p \<noteq> [] \<and> last (split_on is_slash p) \<noteq> ''.''
         \<and> norm_path p \<notin> set (dirs f) \<and> map_of (files f) (norm_path p) = None
         \<and> is_dir f (parent_dir (norm_path p))
         \<and> length (base_name (norm_path p)) \<le> NAME_MAX
      then f\<lparr>dirs := dirs f @ [norm_path p]\<rparr> else f)"

definition ensure_directory_exists :: "fs \<Rightarrow> string \<Rightarrow> fs" where
  "ensure_directory_exists f path =
     (if is_dir f path then f
      else
        let tmp0 = snprintf MAX_PATH_LEN path;
            tmp = (if tmp0 \<noteq> [] \<and> last tmp0 = CHR ''/'' then butlast tmp0 else tmp0);
            prefixes = map (\<lambda>i. take i tmp) (filter (\<lambda>i. tmp ! i = CHR ''/'') [1..<length tmp])
        in foldl mkdir f (prefixes @ [tmp]))"

definition readdir_regular :: "fs \<Rightarrow> string \<Rightarrow> string list" where
  \<comment> \<open>names of the \<^verbatim>\<open>DT_REG\<close> entries of a directory, in directory order\<close>
  "readdir_regular f d =
     map (\<lambda>(p, c). base_name p) (filter (\<lambda>(p, c). parent_dir p = norm_path d) (files f))"

section \<open>Sockets\<close>

text \<open>
  The inbound side of a connection is the list of fragments still to arrive; the empty
  list is a closed connection. \<^verbatim>\<open>recv\<close> returns at most one fragment, \<^verbatim>\<open>MSG_WAITALL\<close>
  collects fragments until the count is reached or the peer has closed. A receive error
  is treated like a closed connection, as every caller does. \<^verbatim>\<open>send\<close> on a connected
  socket succeeds. A call to a storage node is the type \<open>rpc\<close>: the port, the payloads of
  the successive \<^verbatim>\<open>send\<close>s and the file system give the reply stream and the new file
  system, or \<open>None\<close> when \<^verbatim>\<open>connect\<close> fails.
\<close>

type_synonym sock = "string list"

type_synonym rpc = "nat \<Rightarrow> string list \<Rightarrow> fs \<Rightarrow> (sock \<times> fs) option"

type_synonym calls = "(nat \<times> string list) list"

fun recv :: "sock \<Rightarrow> nat \<Rightarrow> string \<times> sock" where
  "recv [] n = ([], [])"
| "recv (c # cs) n =
     (if c = [] then recv cs n
      else if length c \<le> n then (c, cs)
      else (take n c, drop n c # cs))"

fun recv_waitall :: "sock \<Rightarrow> nat \<Rightarrow> string \<times> sock" where
  "recv_waitall [] n = ([], [])"
| "recv_waitall (c # cs) n =
     (if length c \<le> n then (let (r, s') = recv_waitall cs (n - length c) in (c @ r, s'))
      else (take n c, drop n c # cs))"

section \<open>Coordinator: removef (S1.c)\<close>

definition send_delete_request :: "rpc \<Rightarrow> string \<Rightarrow> nat \<Rightarrow> fs \<Rightarrow> int \<times> fs" where
  \<comment> \<open>the reply is received into a local buffer, printed and dropped\<close>
  "send_delete_request call filepath server_port f =
     (case call server_port [snprintf (MAX_PATH_LEN + 20) (''DELETE '' @ filepath)] f of
        None \<Rightarrow> (-1, f)
      | Some (reply, f') \<Rightarrow> (let (response, rest) = recv reply (BUFFER_SIZE - 1) in (0, f')))"

record removef_state =
  rm_fs :: fs
  files_removed :: nat
  response_msg :: string
  rm_calls :: calls

definition removef_remote ::
  "rpc \<Rightarrow> string \<Rightarrow> string \<Rightarrow> nat \<Rightarrow> string \<Rightarrow> removef_state \<Rightarrow> removef_state" where
  \<comment> \<open>the three branches for .pdf, .txt and .zip differ in the tag and the port only\<close>
  "removef_remote call home tag port file st =
     (let sn_path = snprintf MAX_PATH_LEN (home @ ''/'' @ tag @ drop 3 file);
          (r, f') = send_delete_request call sn_path port (rm_fs st);
          st' = st\<lparr>rm_fs := f',
                   rm_calls := rm_calls st @ [(port, [snprintf (MAX_PATH_LEN + 20) (''DELETE '' @ sn_path)])]\<rparr>
      in if r = 0
         then st'\<lparr>files_removed := files_removed st + 1,
                  response_msg := response_msg st @ ''Delete request sent to '' @ tag @ '': '' @ file @ ''; ''\<rparr>
         else st'\<lparr>response_msg := response_msg st @ ''Failed to contact '' @ tag @ '' for: '' @ file @ ''; ''\<rparr>)"

definition removef_file :: "rpc \<Rightarrow> string \<Rightarrow> string \<Rightarrow> removef_state \<Rightarrow> removef_state" where
  \<comment> \<open>one iteration of the loop over the files of the command\<close>
  "removef_file call home file st =
     (let absolute_path =
            (if take 3 file = ''~S1'' then snprintf MAX_PATH_LEN (home @ ''/S1'' @ drop 3 file)
             else file);
          ext = get_file_extension file
      in if ext = ''.c'' then
           (if \<not> path_exists (rm_fs st) absolute_path
            then st\<lparr>response_msg := response_msg st @ ''File not found in S1: '' @ file @ ''; ''\<rparr>
            else (case unlink (rm_fs st) absolute_path of (r, f') \<Rightarrow>
                    if r = 0
                    then st\<lparr>rm_fs := f', files_removed := files_removed st + 1,
                            response_msg := response_msg st @ ''Deleted from S1: '' @ file @ ''; ''\<rparr>
                    else st\<lparr>response_msg := response_msg st @ ''Failed to delete: '' @ file @ ''; ''\<rparr>))
         else if ext = ''.pdf'' then removef_remote call home ''S2'' S2_PORT file st
         else if ext = ''.txt'' then removef_remote call home ''S3'' S3_PORT file st
         else if ext = ''.zip'' then removef_remote call home ''S4'' S4_PORT file st
         else st\<lparr>response_msg := response_msg st @ ''Unsupported file type: '' @ file @ ''; ''\<rparr>)"

definition s1_handle_removef :: "rpc \<Rightarrow> string \<Rightarrow> string \<Rightarrow> fs \<Rightarrow> string \<times> fs \<times> calls" where
  \<comment> \<open>returns the text sent to the client, the file system and the calls to storage nodes\<close>
  "s1_handle_removef call home command f =
     (let file_list = take 2 (drop 1 (tokens is_space command));
          st = foldl (\<lambda>st file. removef_file call home file st)
                 \<lparr>rm_fs = f, files_removed = 0, response_msg = [], rm_calls = []\<rparr> file_list
      in (snprintf BUFFER_SIZE
            (''Remove operation completed. Processed '' @ show_nat (files_removed st) @ '' out of ''
             @ show_nat (length file_list) @ '' files. '' @ response_msg st),
          rm_fs st, rm_calls st))"


section \<open>Integers on the wire\<close>

text \<open>
  \<^verbatim>\<open>int\<close> is 4 bytes and \<^verbatim>\<open>long\<close> is 8 bytes, copied to and from the socket in the
  machine's byte order, taken to be little-endian; values are two's complement.
\<close>

definition enc_le :: "nat \<Rightarrow> int \<Rightarrow> string" where
  "enc_le n v = map (\<lambda>i. char_of (v div 256 ^ i)) [0..<n]"

definition dec_le :: "string \<Rightarrow> int" where
  "dec_le s = foldr (\<lambda>c a. of_char c + 256 * a) s 0"

definition dec_int :: "string \<Rightarrow> int" where
  "dec_int s =
     (let u = dec_le s in if 2 ^ (8 * length s - 1) \<le> u then u - 2 ^ (8 * length s) else u)"

section \<open>Streaming loops\<close>

function read_chunks :: "string \<Rightarrow> string list" where
  \<comment> \<open>\<^verbatim>\<open>while ((n = fread(buffer, 1, BUFFER_SIZE, file)) > 0) send(..., buffer, n, 0)\<close>\<close>
  "read_chunks content =
     (if content = [] then [] else take 8192 content # read_chunks (drop 8192 content))"
  by pat_completeness auto
termination
  by (relation "measure length") auto

declare read_chunks.simps [simp del]

function recv_loop :: "sock \<Rightarrow> int \<Rightarrow> string list \<Rightarrow> string list \<times> int \<times> sock" where
  \<comment> \<open>\<^verbatim>\<open>while (remaining > 0) { n = recv(s, buf, min(remaining, BUFFER_SIZE), 0);
      if (n <= 0) break; <write or forward n bytes>; remaining -= n; }\<close>:
      the pieces received, what is still missing, and the socket afterwards\<close>
  "recv_loop s remaining acc =
     (if 0 < remaining then
        (case recv s (nat (min remaining 8192)) of (d, s') \<Rightarrow>
           if d \<noteq> [] then recv_loop s' (remaining - int (length d)) (acc @ [d])
           else (acc, remaining, s'))
      else (acc, remaining, s))"
  by pat_completeness auto
termination
  by (relation "measure (\<lambda>(s, remaining, acc). nat remaining)") auto

declare recv_loop.simps [simp del]

section \<open>Coordinator: downlf and downltar (S1.c)\<close>

definition minus_one :: string where
  \<comment> \<open>\<^verbatim>\<open>file_size = -1; send(fd, &file_size, sizeof(file_size), 0)\<close>\<close>
  "minus_one = enc_le 8 (-1)"

definition send_file_stream :: "string \<Rightarrow> string list" where
  \<comment> \<open>the size, then the content in chunks of \<^verbatim>\<open>BUFFER_SIZE\<close>\<close>
  "send_file_stream content = enc_le 8 (int (length content)) # read_chunks content"

definition send_local_file_to_client :: "string \<Rightarrow> string \<Rightarrow> fs \<Rightarrow> int \<times> string list" where
  "send_local_file_to_client home filepath f =
     (let local_path = snprintf MAX_PATH_LEN (home @ ''/S1'' @ drop 3 filepath) in
      case fopen_rb f local_path of
        None \<Rightarrow> (0, [minus_one])
      | Some content \<Rightarrow> (1, send_file_stream content))"

definition forward_from_aux ::
  "rpc \<Rightarrow> string \<Rightarrow> string \<Rightarrow> nat \<Rightarrow> fs \<Rightarrow> int \<times> string list \<times> fs \<times> calls" where
  \<comment> \<open>the common body of \<^verbatim>\<open>forward_file_from_aux_server\<close> and
      \<^verbatim>\<open>forward_tar_from_aux_server\<close>, which differ in the command only. \<open>junk\<close> is the
      content of the uninitialised variable \<^verbatim>\<open>file_size\<close>, which shows where the single
      \<^verbatim>\<open>recv\<close> of the size returns fewer than 8 bytes\<close>
  "forward_from_aux call junk command server_port f =
     (case call server_port [command] f of
        None \<Rightarrow> (0, [minus_one], f, [(server_port, [command])])
      | Some (reply, f') \<Rightarrow>
          (case recv reply 8 of (hdr, rest) \<Rightarrow>
             if hdr = [] then (0, [minus_one], f', [(server_port, [command])])
             else
               let size_bytes = take 8 (hdr @ drop (length hdr) junk);
                   file_size = dec_int size_bytes
               in if file_size = -1 then (0, [size_bytes], f', [(server_port, [command])])
                  else (case recv_loop rest file_size [] of (pieces, bytes_remaining, rest') \<Rightarrow>
                          ((if bytes_remaining = 0 then 1 else 0), size_bytes # pieces, f',
                           [(server_port, [command])]))))"

definition forward_file_from_aux_server ::
  "rpc \<Rightarrow> string \<Rightarrow> string \<Rightarrow> nat \<Rightarrow> string \<Rightarrow> fs \<Rightarrow> int \<times> string list \<times> fs \<times> calls" where
  "forward_file_from_aux_server call junk filepath server_port server_name f =
     forward_from_aux call junk
       (snprintf BUFFER_SIZE (''GET_FILE '' @ convert_path_for_server filepath server_name))
       server_port f"

definition forward_tar_from_aux_server ::
  "rpc \<Rightarrow> string \<Rightarrow> string \<Rightarrow> nat \<Rightarrow> fs \<Rightarrow> int \<times> string list \<times> fs \<times> calls" where
  "forward_tar_from_aux_server call junk filetype server_port f =
     forward_from_aux call junk (snprintf BUFFER_SIZE (''CREATE_TAR '' @ filetype)) server_port f"

definition downlf_file ::
  "rpc \<Rightarrow> string \<Rightarrow> string \<Rightarrow> string \<Rightarrow> fs \<Rightarrow> string list \<times> fs \<times> calls" where
  \<comment> \<open>one iteration of the loop of \<^verbatim>\<open>s1_handle_downlf\<close>\<close>
  "downlf_file call junk home fl f =
     (let server_num = get_server_for_file fl in
      if server_num = 1 then (snd (send_local_file_to_client home fl f), f, [])
      else if server_num = 2 then snd (forward_file_from_aux_server call junk fl S2_PORT ''S2'' f)
      else if server_num = 3 then snd (forward_file_from_aux_server call junk fl S3_PORT ''S3'' f)
      else if server_num = 4 then snd (forward_file_from_aux_server call junk fl S4_PORT ''S4'' f)
      else ([minus_one], f, []))"


definition send_local_tar_to_client ::
  "(string \<Rightarrow> fs \<Rightarrow> fs) \<Rightarrow> string \<Rightarrow> fs \<Rightarrow> int \<times> string list \<times> fs" where
  \<comment> \<open>\<open>system\<close> is the effect of the shell command on the file system\<close>
  "send_local_tar_to_client system home f =
     (let tar_path = snprintf MAX_PATH_LEN (home @ ''/S1/'' @ ''cfiles.tar'');
          tar_command = snprintf MAX_PATH_LEN
            (''cd '' @ home @ ''/S1 && find . -name '' @ [CHR 0x27] @ ''*.c'' @ [CHR 0x27]
             @ '' -type f | tar -cf '' @ ''cfiles.tar'' @ '' -T - 2>/dev/null'');
          f1 = system tar_command f
      in case fopen_rb f1 tar_path of
           None \<Rightarrow> (0, [minus_one], f1)
         | Some content \<Rightarrow> (1, send_file_stream content, snd (unlink f1 tar_path)))"

definition s1_handle_downltar ::
  "rpc \<Rightarrow> (string \<Rightarrow> fs \<Rightarrow> fs) \<Rightarrow> string \<Rightarrow> string \<Rightarrow> string \<Rightarrow> fs
     \<Rightarrow> int \<times> string list \<times> fs \<times> calls" where
  "s1_handle_downltar call system junk home command f =
     (case drop 1 (tokens is_space command) of
        [] \<Rightarrow> (0, [minus_one], f, [])
      | filetype # _ \<Rightarrow>
          if filetype = ''.c'' then
            (case send_local_tar_to_client system home f of (r, out, f') \<Rightarrow> (r, out, f', []))
          else if filetype = ''.pdf'' then forward_tar_from_aux_server call junk filetype S2_PORT f
          else if filetype = ''.txt'' then forward_tar_from_aux_server call junk filetype S3_PORT f
          else (0, [minus_one], f, []))"

section \<open>Coordinator: uploadf (S1.c)\<close>

definition posix_basename :: "string \<Rightarrow> string" where
  \<comment> \<open>\<^verbatim>\<open>basename\<close> of \<^verbatim>\<open>libgen.h\<close>\<close>
  "posix_basename p =
     (let q = rev (dropWhile (\<lambda>c. c = CHR ''/'') (rev p)) in
      if p = [] then ''.'' else if q = [] then ''/'' else base_name q)"

definition upload_message :: "string \<Rightarrow> string \<Rightarrow> string \<Rightarrow> string list" where
  \<comment> \<open>the successive \<^verbatim>\<open>send\<close>s of a complete transfer\<close>
  "upload_message dest_path filename content =
     [enc_le 4 (int (length dest_path)), dest_path,
      enc_le 4 (int (length filename)), filename,
      enc_le 8 (int (length content))] @ read_chunks content"

definition send_to_server :: "rpc \<Rightarrow> string \<Rightarrow> string \<Rightarrow> nat \<Rightarrow> fs \<Rightarrow> int \<times> fs \<times> calls" where
  \<comment> \<open>a failure after \<^verbatim>\<open>connect\<close> closes the socket with the message cut short\<close>
  "send_to_server call filepath dest_path server_port f =
     (let filename = posix_basename (take (MAX_PATH_LEN - 1) filepath);
          (status, sends) =
            (if filename = [] then (-1, [enc_le 4 (int (length dest_path)), dest_path])
             else case fopen_rb f filepath of
                    None \<Rightarrow> (-1, [enc_le 4 (int (length dest_path)), dest_path,
                                   enc_le 4 (int (length filename)), filename])
                  | Some content \<Rightarrow> (0, upload_message dest_path filename content))
      in case call server_port sends f of
           None \<Rightarrow> (-1, f, [(server_port, sends)])
         | Some (reply, f') \<Rightarrow> (status, f', [(server_port, sends)]))"

record uploadf_state =
  up_sock :: sock
  up_fs :: fs
  files_processed :: nat
  up_calls :: calls

definition uploadf_forward ::
  "rpc \<Rightarrow> string \<Rightarrow> string \<Rightarrow> nat \<Rightarrow> string \<Rightarrow> string \<Rightarrow> uploadf_state \<Rightarrow> uploadf_state" where
  \<comment> \<open>the three branches for .pdf, .txt and .zip differ in the tag and the port only\<close>
  "uploadf_forward call home tag port actual_dest full_path st =
     (let sn_dest = snprintf MAX_PATH_LEN (home @ ''/'' @ tag @ drop 3 actual_dest);
          (r, f', cl) = send_to_server call full_path sn_dest port (up_fs st)
      in st\<lparr>up_fs := (if r = 0 then snd (unlink f' full_path) else f'),
             up_calls := up_calls st @ cl\<rparr>)"

definition uploadf_route ::
  "rpc \<Rightarrow> string \<Rightarrow> string \<Rightarrow> string \<Rightarrow> string \<Rightarrow> uploadf_state \<Rightarrow> uploadf_state" where
  \<comment> \<open>the routing of a completely received file by its extension\<close>
  "uploadf_route call home actual_dest full_path filename st =
     (let ext = get_file_extension filename in
      if ext = ''.pdf'' then uploadf_forward call home ''S2'' S2_PORT actual_dest full_path st
      else if ext = ''.txt'' then uploadf_forward call home ''S3'' S3_PORT actual_dest full_path st
      else if ext = ''.zip'' then uploadf_forward call home ''S4'' S4_PORT actual_dest full_path st
      else if ext = ''.c'' then st
      else st)"

definition uploadf_file ::
  "rpc \<Rightarrow> string \<Rightarrow> string \<Rightarrow> string \<Rightarrow> string \<Rightarrow> uploadf_state \<Rightarrow> uploadf_state" where
  \<comment> \<open>one iteration of the loop over the files of the command\<close>
  "uploadf_file call home actual_dest final_dest filename st =
     (case recv_waitall (up_sock st) 8 of (size_bytes, s1) \<Rightarrow>
        if length size_bytes \<noteq> 8 then st\<lparr>up_sock := s1\<rparr>
        else
          let file_size = dec_int size_bytes;
              full_path = snprintf MAX_PATH_LEN (final_dest @ ''/'' @ filename)
          in if \<not> can_create (up_fs st) full_path then
               (case recv_loop s1 file_size [] of (skipped, remaining, s2) \<Rightarrow> st\<lparr>up_sock := s2\<rparr>)
             else
               (case recv_loop s1 file_size [] of (pieces, remaining, s2) \<Rightarrow>
                  let st1 = st\<lparr>up_sock := s2,
                               up_fs := write_file (up_fs st) full_path (concat pieces)\<rparr>;
                      total_received = int (length (concat pieces))
                  in if total_received = file_size
                     then uploadf_route call home actual_dest full_path filename
                            (st1\<lparr>files_processed := files_processed st + 1\<rparr>)
                     else st1))"

definition s1_handle_uploadf ::
  "rpc \<Rightarrow> string \<Rightarrow> string \<Rightarrow> sock \<Rightarrow> fs \<Rightarrow> string \<times> uploadf_state" where
  \<comment> \<open>the text sent to the client, and the client socket, file system and calls afterwards\<close>
  "s1_handle_uploadf call home command client f =
     (let args = take 4 (drop 1 (tokens is_space command)) in
      if \<not> (2 \<le> length args \<and> hd (last args) = CHR ''~'') then
        (''Error: Invalid command format'',
         \<lparr>up_sock = client, up_fs = f, files_processed = 0, up_calls = []\<rparr>)
      else
        let actual_dest = last args;
            file_list = butlast args;
            final_dest = (if take 3 actual_dest = ''~S1''
                          then snprintf MAX_PATH_LEN (home @ ''/S1'' @ drop 3 actual_dest)
                          else actual_dest);
            st = foldl (\<lambda>st filename. uploadf_file call home actual_dest final_dest filename st)
                   \<lparr>up_sock = client, up_fs = ensure_directory_exists f final_dest,
                    files_processed = 0, up_calls = []\<rparr> file_list
        in (snprintf 256 (''Successfully processed '' @ show_nat (files_processed st) @ '' out of ''
                          @ show_nat (length file_list) @ '' files''), st))"

section \<open>Coordinator: dispfnames (S1.c)\<close>

fun strstr_at :: "string \<Rightarrow> string \<Rightarrow> bool" where
  "strstr_at [] n = (n = [])"
| "strstr_at (c # cs) n = (take (length n) (c # cs) = n \<or> strstr_at cs n)"

definition list_line_kept :: "string \<Rightarrow> bool" where
  \<comment> \<open>the lines of a node's answer that are taken for file names\<close>
  "list_line_kept token =
     (\<not> strstr_at token ''SUCCESS'' \<and> \<not> strstr_at token ''ERROR'' \<and> \<not> strstr_at token ''Files found'')"

definition get_files_from_server ::
  "rpc \<Rightarrow> nat \<Rightarrow> string \<Rightarrow> fs \<Rightarrow> int \<times> string list \<times> fs \<times> calls" where
  "get_files_from_server call server_port server_path f =
     (let list_cmd = snprintf (MAX_PATH_LEN + 20) (''LIST '' @ server_path) in
      case call server_port [list_cmd] f of
        None \<Rightarrow> (-1, [], f, [(server_port, [list_cmd])])
      | Some (reply, f') \<Rightarrow>
          (case recv reply (BUFFER_SIZE * 4 - 1) of (response, rest) \<Rightarrow>
             (0, take MAX_FILES (map (take 255)
                   (filter list_line_kept (tokens is_newline (cstr response)))),
              f', [(server_port, [list_cmd])])))"

definition get_local_c_files :: "fs \<Rightarrow> string \<Rightarrow> int \<times> string list" where
  "get_local_c_files f local_path =
     (if \<not> is_dir f local_path then (-1, [])
      else (0, take MAX_FILES (map (take 255)
                 (filter (\<lambda>n. get_file_extension n = ''.c'') (readdir_regular f local_path)))))"

definition list_lines :: "string list \<Rightarrow> string" where
  \<comment> \<open>\<^verbatim>\<open>for (...) { strcat(response, files[i]); strcat(response, "\n"); }\<close>\<close>
  "list_lines names = concat (map (\<lambda>n. n @ [CHR 0x0A]) names)"

fun copy_back :: "nat list \<Rightarrow> nat \<Rightarrow> string list \<Rightarrow> string list" where
  \<comment> \<open>\<^verbatim>\<open>strcpy(files[i], ptrs[i])\<close> for \<open>i\<close>, \<open>i + 1\<close>, ...: each copy reads the array as the
      copies before it have left it\<close>
  "copy_back [] i arr = arr"
| "copy_back (p # ptrs) i arr = copy_back ptrs (Suc i) (arr[i := arr ! p])"

definition sort_names :: "string list \<Rightarrow> string list" where
  \<comment> \<open>\<^verbatim>\<open>for (i) ptrs[i] = files[i]; qsort(ptrs, count, sizeof(char*), string_compare);
      for (i) strcpy(files[i], ptrs[i]);\<close> The pointers are positions in the array of names;
      they are sorted by the names they point to, and the names are then copied back
      one after the other into the array the pointers point into. \<^verbatim>\<open>strcmp\<close> compares
      bytes as unsigned, the order of \<^typ>\<open>string\<close>. \<^verbatim>\<open>qsort\<close> may leave equal names in
      any order; they are left in the order of the array here\<close>
  "sort_names names = copy_back (sort_key (\<lambda>i. names ! i) [0..<length names]) 0 names"

definition format_listing :: "string list \<Rightarrow> string list \<Rightarrow> string list \<Rightarrow> string list \<Rightarrow> string" where
  \<comment> \<open>the sorting and the building of the response of \<^verbatim>\<open>s1_handle_dispfnames\<close>\<close>
  "format_listing c_files pdf_files txt_files zip_files =
     (let total_files = length c_files + length pdf_files + length txt_files + length zip_files in
      if total_files = 0 then ''No files found in the specified directory''
      else
        snprintf 256
          (''Files found: '' @ show_nat total_files @ '' (.c: '' @ show_nat (length c_files)
           @ '', .pdf: '' @ show_nat (length pdf_files) @ '', .txt: '' @ show_nat (length txt_files)
           @ '', .zip: '' @ show_nat (length zip_files) @ '')'' @ [CHR 0x0A])
        @ list_lines (sort_names c_files) @ list_lines (sort_names pdf_files)
        @ list_lines (sort_names txt_files) @ list_lines (sort_names zip_files))"

definition s1_handle_dispfnames :: "rpc \<Rightarrow> string \<Rightarrow> string \<Rightarrow> fs \<Rightarrow> string \<times> fs \<times> calls" where
  "s1_handle_dispfnames call home command f =
     (case drop 1 (tokens is_space command) of
        [] \<Rightarrow> (''Error: Path must be specified'', f, [])
      | pathname # _ \<Rightarrow>
          if take 3 pathname \<noteq> ''~S1'' then (''Error: Path must start with ~S1'', f, [])
          else
            let absolute_path = snprintf MAX_PATH_LEN (home @ ''/S1'' @ drop 3 pathname) in
            if \<not> is_dir f absolute_path then (''Error: Directory not found in S1'', f, [])
            else
              let c_files = snd (get_local_c_files f absolute_path);
                  (r2, pdf_files, f2, cl2) = get_files_from_server call S2_PORT
                     (snprintf MAX_PATH_LEN (home @ ''/S2'' @ drop 3 pathname)) f;
                  (r3, txt_files, f3, cl3) = get_files_from_server call S3_PORT
                     (snprintf MAX_PATH_LEN (home @ ''/S3'' @ drop 3 pathname)) f2;
                  (r4, zip_files, f4, cl4) = get_files_from_server call S4_PORT
                     (snprintf MAX_PATH_LEN (home @ ''/S4'' @ drop 3 pathname)) f3
              in (format_listing c_files pdf_files txt_files zip_files, f4, cl2 @ cl3 @ cl4))"

section \<open>Storage nodes S2 and S3\<close>

text \<open>
  The two programs differ in the tag, the extension and the archive name only.
  A handler maps the file system and the inbound socket to what it sends back, the new
  file system and the socket as it leaves it.
\<close>

record node_cfg =
  node_tag :: string
  node_ext :: string
  tar_filename :: string

definition S2_cfg :: node_cfg where
  "S2_cfg = \<lparr>node_tag = ''S2'', node_ext = ''.pdf'', tar_filename = ''pdf.tar''\<rparr>"

definition S3_cfg :: node_cfg where
  "S3_cfg = \<lparr>node_tag = ''S3'', node_ext = ''.txt'', tar_filename = ''text.tar''\<rparr>"

definition send_file_to_s1 :: "node_cfg \<Rightarrow> string \<Rightarrow> string \<Rightarrow> fs \<Rightarrow> string list" where
  "send_file_to_s1 cfg home filepath f =
     (let local_path = snprintf MAX_PATH_LEN (home @ ''/'' @ node_tag cfg @ drop 3 filepath) in
      case fopen_rb f local_path of
        None \<Rightarrow> [minus_one]
      | Some content \<Rightarrow> send_file_stream content)"

definition create_and_send_tar_to_s1 ::
  "node_cfg \<Rightarrow> (string \<Rightarrow> fs \<Rightarrow> fs) \<Rightarrow> string \<Rightarrow> fs \<Rightarrow> string list \<times> fs" where
  "create_and_send_tar_to_s1 cfg system home f =
     (let tar_path = snprintf MAX_PATH_LEN (home @ ''/'' @ node_tag cfg @ ''/'' @ tar_filename cfg);
          tar_command = snprintf MAX_PATH_LEN
            (''cd '' @ home @ ''/'' @ node_tag cfg @ '' && find . -name '' @ [CHR 0x27] @ ''*'' @ node_ext cfg
             @ [CHR 0x27] @ '' -type f | tar -cf '' @ tar_filename cfg @ '' -T - 2>/dev/null'');
          f1 = system tar_command f
      in case fopen_rb f1 tar_path of
           None \<Rightarrow> ([minus_one], f1)
         | Some content \<Rightarrow> (send_file_stream content, snd (unlink f1 tar_path)))"

definition handle_delete_request :: "node_cfg \<Rightarrow> string \<Rightarrow> fs \<Rightarrow> string list \<times> fs" where
  "handle_delete_request cfg filepath f =
     (if path_exists f filepath then
        (case unlink f filepath of (r, f') \<Rightarrow>
           if r = 0 then ([''SUCCESS: File deleted from '' @ node_tag cfg], f')
           else ([''ERROR: Failed to delete file from '' @ node_tag cfg], f'))
      else ([''WARNING: File not found in '' @ node_tag cfg], f))"

definition handle_list_request :: "node_cfg \<Rightarrow> string \<Rightarrow> fs \<Rightarrow> string list" where
  "handle_list_request cfg pathname f =
     (if \<not> is_dir f pathname then [''ERROR: Directory not found in '' @ node_tag cfg]
      else
        let found = take MAX_FILES (map (take 255)
                      (filter (\<lambda>n. get_file_extension n = node_ext cfg) (readdir_regular f pathname)))
        in if length found = 0 then [''No '' @ node_ext cfg @ '' files found in '' @ node_tag cfg]
           else [snprintf 256 (''Files found in '' @ node_tag cfg @ '': '' @ show_nat (length found)
                               @ [CHR 0x0A]) @ list_lines found])"

definition take_field :: "string \<Rightarrow> nat \<Rightarrow> string \<Rightarrow> sock \<Rightarrow> (string \<times> string) option \<times> sock" where
  \<comment> \<open>the way \<^verbatim>\<open>handle_upload_request\<close> obtains the name length, the name and the file
      size: from the rest of the initial buffer when it holds all \<open>n\<close> bytes; otherwise what
      is left of the buffer, completed by one \<^verbatim>\<open>MSG_WAITALL\<close> receive of the missing bytes,
      and the initial buffer is used up. Nothing received aborts. Where the receive comes
      back short, the tail of the target buffer keeps its previous content \<open>old\<close>.
      The result is the field and the rest of the initial buffer\<close>
  "take_field old n buf s =
     (if n \<le> length buf then (Some (take n buf, drop n buf), s)
      else case recv_waitall s (n - length buf) of (r, s') \<Rightarrow>
             if r = [] then (None, s')
             else (Some (buf @ r @ drop (length buf + length r) old, []), s'))"

definition receive_payload :: "fs \<Rightarrow> string \<Rightarrow> string \<Rightarrow> sock \<Rightarrow> int \<Rightarrow> fs \<times> sock" where
  \<comment> \<open>the end of \<^verbatim>\<open>handle_upload_request\<close>, from \<^verbatim>\<open>fopen(full_path, "wb")\<close> on: the
      payload bytes that came with the header are written first, the rest is received;
      an incomplete file is unlinked\<close>
  "receive_payload f1 full_path in_buffer s file_size =
     (if \<not> can_create f1 full_path then (f1, s)
      else
        (case recv_loop s (file_size - int (length in_buffer)) [] of
           (pieces, remaining, s') \<Rightarrow>
             let content = in_buffer @ concat pieces in
             if int (length content) = file_size
             then (write_file f1 full_path content, s')
             else (snd (unlink (write_file f1 full_path content) full_path), s')))"

definition upload_fields :: "string \<Rightarrow> fs \<Rightarrow> sock \<Rightarrow> string \<Rightarrow> string \<Rightarrow> fs \<times> sock" where
  \<comment> \<open>the middle of \<^verbatim>\<open>handle_upload_request\<close>: the name length, the name and the file
      size, each from the rest \<open>b2\<close> of the initial buffer or from the socket.
      \<open>junk\<close> is the content of the uninitialised buffers \<^verbatim>\<open>combined_buffer\<close> and
      \<^verbatim>\<open>file_size_buffer\<close>\<close>
  "upload_fields junk f1 s dest_path b2 =
     (case take_field (take 4 junk) 4 b2 s of
        (None, s1) \<Rightarrow> (f1, s1)
      | (Some (len_bytes, b3), s1) \<Rightarrow>
          let filename_len = dec_int len_bytes in
          if filename_len \<le> 0 \<or> 256 \<le> filename_len then (f1, s1)
          else
            (case take_field (replicate 256 (CHR 0x00)) (nat filename_len) b3 s1 of
               (None, s2) \<Rightarrow> (f1, s2)
             | (Some (name_bytes, b4), s2) \<Rightarrow>
                 (case take_field (take 8 junk) 8 b4 s2 of
                    (None, s3) \<Rightarrow> (f1, s3)
                  | (Some (size_bytes, b5), s3) \<Rightarrow>
                      receive_payload f1
                        (snprintf MAX_PATH_LEN (dest_path @ ''/'' @ cstr name_bytes))
                        b5 s3 (dec_int size_bytes))))"

definition handle_upload_request :: "string \<Rightarrow> fs \<Rightarrow> sock \<Rightarrow> string \<Rightarrow> fs \<times> sock" where
  \<comment> \<open>the destination path must be in the initial buffer\<close>
  "handle_upload_request junk f s initial_buffer =
     (if length initial_buffer < 4 then (f, s)
      else
        let dest_len = dec_int (take 4 initial_buffer);
            b1 = drop 4 initial_buffer
        in if dest_len \<le> 0 \<or> int MAX_PATH_LEN \<le> dest_len then (f, s)
           else if int (length b1) < dest_len then (f, s)
           else
             let dest_path = cstr (take (nat dest_len) b1) in
             upload_fields junk (ensure_directory_exists f dest_path) s dest_path
               (drop (nat dest_len) b1))"

definition handle_s1_request ::
  "node_cfg \<Rightarrow> (string \<Rightarrow> fs \<Rightarrow> fs) \<Rightarrow> string \<Rightarrow> string \<Rightarrow> fs \<Rightarrow> sock
     \<Rightarrow> string list \<times> fs \<times> sock" where
  "handle_s1_request cfg system junk home f s =
     (case recv s (BUFFER_SIZE - 1) of (buffer, s') \<Rightarrow>
        if buffer = [] then ([], f, s')
        else
          let text = cstr buffer in
          if take 7 text = ''DELETE '' then
            (case handle_delete_request cfg (drop 7 text) f of (out, f') \<Rightarrow> (out, f', s'))
          else if take 5 text = ''LIST '' then (handle_list_request cfg (drop 5 text) f, f, s')
          else
            (case tokens c_isspace text of
               command # parameter # _ \<Rightarrow>
                 if command = ''GET_FILE'' then (send_file_to_s1 cfg home parameter f, f, s')
                 else if command = ''CREATE_TAR'' then
                   (case create_and_send_tar_to_s1 cfg system home f of (out, f') \<Rightarrow> (out, f', s'))
                 else ([], f, s')
             | _ \<Rightarrow>
                 if 4 \<le> length buffer \<and> 0 < dec_int (take 4 buffer)
                    \<and> dec_int (take 4 buffer) < int MAX_PATH_LEN
                 then (case handle_upload_request junk f s' buffer of (f', s'') \<Rightarrow> ([], f', s''))
                 else ([], f, s')))"

section \<open>Storage node S4 (S4.c)\<close>

definition MAX_FILE_SIZE :: int where "MAX_FILE_SIZE = 500 * 1024 * 1024"

definition s4_local_path :: "string \<Rightarrow> string \<Rightarrow> string" where
  \<comment> \<open>the conversion used for GET_FILE, DELETE and LIST\<close>
  "s4_local_path home p =
     (if take 3 p = ''~S4'' then snprintf MAX_PATH_LEN (home @ ''/S4'' @ drop 3 p)
      else take (MAX_PATH_LEN - 1) p)"

definition s4_send_file_to_s1 :: "string \<Rightarrow> string \<Rightarrow> fs \<Rightarrow> string list" where
  "s4_send_file_to_s1 home filepath f =
     (case fopen_rb f (s4_local_path home filepath) of
        None \<Rightarrow> [minus_one]
      | Some content \<Rightarrow> send_file_stream content)"

datatype 'a c_result = Undefined | Defined 'a

definition s4_parse_header :: "string \<Rightarrow> (string \<times> string \<times> int \<times> int) option c_result" where
  \<comment> \<open>the first part of \<^verbatim>\<open>handle_file_upload\<close>: the path, the name and, when all its
      8 bytes are in the buffer, the file size (0 otherwise), with the position reached.
      \<open>None\<close> is one of the early returns. \<open>Undefined\<close>: the name length is read before the
      start of the buffer, or the position leaves the range of \<^verbatim>\<open>int\<close>\<close>
  "s4_parse_header protocol_buffer =
     (let total = int (length protocol_buffer) in
      if 4 > total then Defined None
      else
        let path_len = dec_int (take 4 protocol_buffer) in
        if 2 ^ 31 \<le> 4 + path_len then Undefined
        else if 4 + path_len > total then Defined None
        else
          let dest_path0 = (if 0 < path_len \<and> path_len < int MAX_PATH_LEN
                            then cstr (take (nat path_len) (drop 4 protocol_buffer)) else []);
              pos1 = 4 + path_len
          in if pos1 + 4 > total then Defined None
             else if pos1 < 0 then Undefined
             else
               let name_len = dec_int (take 4 (drop (nat pos1) protocol_buffer));
                   pos2 = pos1 + 4
               in if 2 ^ 31 \<le> pos2 + name_len then Undefined
                  else if pos2 + name_len > total then Defined None
                  else if \<not> (0 < name_len \<and> name_len < int MAX_PATH_LEN) then Defined None
                  else
                    let filename = cstr (take (nat name_len) (drop (nat pos2) protocol_buffer));
                        pos3 = pos2 + name_len
                    in if pos3 + 8 \<le> total
                       then Defined (Some (dest_path0, filename,
                                           dec_int (take 8 (drop (nat pos3) protocol_buffer)), pos3 + 8))
                       else Defined (Some (dest_path0, filename, 0, pos3)))"

definition s4_receive_payload :: "fs \<Rightarrow> string \<Rightarrow> string \<Rightarrow> sock \<Rightarrow> int \<Rightarrow> fs \<times> sock" where
  \<comment> \<open>the end of \<^verbatim>\<open>handle_file_upload\<close>, from \<^verbatim>\<open>fopen(full_path, "wb")\<close> on;
      \<^verbatim>\<open>validate_zip_file\<close> only prints\<close>
  "s4_receive_payload f1 full_path in_buffer s file_size =
     (if \<not> can_create f1 full_path then
        (case recv_loop s file_size [] of (skipped, remaining, s') \<Rightarrow> (f1, s'))
      else
        (case recv_loop s (file_size - int (length in_buffer)) [] of
           (pieces, remaining, s') \<Rightarrow>
             let content = in_buffer @ concat pieces in
             if int (length content) = file_size
             then (write_file f1 full_path content, s')
             else (snd (unlink (write_file f1 full_path content) full_path), s')))"

definition s4_store ::
  "string \<Rightarrow> fs \<Rightarrow> sock \<Rightarrow> string \<Rightarrow> string \<Rightarrow> string \<Rightarrow> int \<Rightarrow> int \<Rightarrow> fs \<times> sock" where
  \<comment> \<open>the middle of \<^verbatim>\<open>handle_file_upload\<close>: the destination directory, the check of the
      extension, the file size where the header did not give one, and its bounds\<close>
  "s4_store home f s protocol_buffer dest_path0 filename file_size0 pos =
     (let dest_path = (if length dest_path0 \<le> 1 then snprintf MAX_PATH_LEN (home @ ''/S4'')
                       else if take 3 dest_path0 = ''~S1''
                       then snprintf MAX_PATH_LEN (home @ ''/S4'' @ drop 3 dest_path0)
                       else dest_path0)
      in case strrchr CHR ''.'' filename of
           None \<Rightarrow> (f, s)
         | Some i \<Rightarrow>
             if drop i filename \<noteq> ''.zip'' \<and> drop i filename \<noteq> ''.ZIP'' then (f, s)
             else
               let f1 = ensure_directory_exists f dest_path;
                   full_path = snprintf MAX_PATH_LEN (dest_path @ ''/'' @ filename)
               in if length filename = 0 then (f1, s)
                  else
                    (case (if file_size0 = 0 then recv_waitall s 8 else (enc_le 8 file_size0, s)) of
                       (size_bytes, s1) \<Rightarrow>
                         if length size_bytes \<noteq> 8 then (f1, s1)
                         else
                           let file_size = dec_int size_bytes in
                           if file_size \<le> 0 then (f1, s1)
                           else if file_size > MAX_FILE_SIZE then (f1, s1)
                           else s4_receive_payload f1 full_path
                                  (drop (nat pos) protocol_buffer) s1 file_size))"

definition handle_file_upload :: "string \<Rightarrow> fs \<Rightarrow> sock \<Rightarrow> string \<Rightarrow> (fs \<times> sock) c_result" where
  "handle_file_upload home f s protocol_buffer =
     (case s4_parse_header protocol_buffer of
        Undefined \<Rightarrow> Undefined
      | Defined None \<Rightarrow> Defined (f, s)
      | Defined (Some (dest_path0, filename, file_size0, pos)) \<Rightarrow>
          Defined (s4_store home f s protocol_buffer dest_path0 filename file_size0 pos))"

fun bubble_pass :: "nat \<Rightarrow> string list \<Rightarrow> string list" where
  \<comment> \<open>the inner loop: compare and swap the first \<open>k\<close> adjacent pairs\<close>
  "bubble_pass (Suc k) (x # y # ys) =
     (if y < x then y # bubble_pass k (x # ys) else x # bubble_pass k (y # ys))"
| "bubble_pass k xs = xs"

definition bubble_sort :: "string list \<Rightarrow> string list" where
  "bubble_sort xs = foldl (\<lambda>a i. bubble_pass (length xs - i - 1) a) xs [0..<length xs - 1]"

definition s4_handle_s1_request ::
  "string \<Rightarrow> fs \<Rightarrow> sock \<Rightarrow> (string list \<times> fs \<times> sock) c_result" where
  "s4_handle_s1_request home f s =
     (case recv s (BUFFER_SIZE * 2 - 1) of (buffer, s') \<Rightarrow>
        if buffer = [] then Defined ([], f, s')
        else
          let text = cstr buffer;
              words = tokens c_isspace text
          in if 2 \<le> length words \<and> hd words = ''GET_FILE''
             then Defined (s4_send_file_to_s1 home (words ! 1) f, f, s')
             else if take 7 text = ''DELETE '' then
               (let local_path = s4_local_path home (drop 7 text) in
                if path_exists f local_path then
                  (case unlink f local_path of (r, f') \<Rightarrow>
                     if r = 0 then Defined ([''SUCCESS: File deleted from S4''], f', s')
                     else Defined ([''ERROR: Failed to delete file from S4''], f', s'))
                else Defined ([''WARNING: File not found in S4''], f, s'))
             else if take 5 text = ''LIST '' then
               (let local_path = s4_local_path home (drop 5 text) in
                if \<not> is_dir f local_path then Defined ([''ERROR: Directory not found in S4''], f, s')
                else
                  let found = take MAX_FILES (map (take 255)
                        (filter (\<lambda>n. get_file_extension n = ''.zip'' \<or> get_file_extension n = ''.ZIP'')
                           (readdir_regular f local_path)))
                  in if length found = 0 then Defined ([''No .zip files found in S4''], f, s')
                     else Defined ([snprintf 256 (''Files found in S4: '' @ show_nat (length found)
                                      @ [CHR 0x0A]) @ list_lines (bubble_sort found)], f, s'))
             else (case handle_file_upload home f s' buffer of
                     Undefined \<Rightarrow> Undefined
                   | Defined (f', s'') \<Rightarrow> Defined ([], f', s'')))"

section \<open>The four programs together\<close>

text \<open>
  A connection serves one request, so a call of the coordinator is the node's handler run
  on what the coordinator sends. \<open>to_node\<close> and \<open>to_s1\<close> say in which fragments the
  payloads of a sequence of \<^verbatim>\<open>send\<close>s reach the receiver. A port that is not up refuses
  the connection.
\<close>

record network =
  port_up :: "nat \<Rightarrow> bool"
  to_node :: "string list \<Rightarrow> sock"
  to_s1 :: "string list \<Rightarrow> sock"

definition system_call :: "network \<Rightarrow> (string \<Rightarrow> fs \<Rightarrow> fs) \<Rightarrow> string \<Rightarrow> string \<Rightarrow> rpc" where
  "system_call net system junk home port sends f =
     (if \<not> port_up net port then None
      else if port = S2_PORT then
        (case handle_s1_request S2_cfg system junk home f (to_node net sends) of
           (out, f', s') \<Rightarrow> Some (to_s1 net out, f'))
      else if port = S3_PORT then
        (case handle_s1_request S3_cfg system junk home f (to_node net sends) of
           (out, f', s') \<Rightarrow> Some (to_s1 net out, f'))
      else if port = S4_PORT then
        (case s4_handle_s1_request home f (to_node net sends) of
           Undefined \<Rightarrow> None
         | Defined (out, f', s') \<Rightarrow> Some (to_s1 net out, f'))
      else None)"

section \<open>Facts about sockets\<close>

lemma recv_waitall_concat:
  "recv_waitall s n = (r, s') \<Longrightarrow> r = take n (concat s) \<and> concat s' = drop n (concat s)"
proof (induction s arbitrary: n r s')
  case Nil
  then show ?case by simp
next
  case (Cons c cs)
  show ?case
  proof (cases "length c \<le> n")
    case True
    obtain r1 s1 where rec: "recv_waitall cs (n - length c) = (r1, s1)"
      by (cases "recv_waitall cs (n - length c)")
    from Cons.IH [OF rec] have ih: "r1 = take (n - length c) (concat cs)" "concat s1 = drop (n - length c) (concat cs)"
      by simp_all
    from Cons.prems True rec have "r = c @ r1" "s' = s1" by simp_all
    with ih True show ?thesis by simp
  next
    case False
    with Cons.prems show ?thesis by auto
  qed
qed

lemma recv_concat: "recv s n = (d, s') \<Longrightarrow> d @ concat s' = concat s"
  by (induction s arbitrary: d s') (auto split: if_splits)

lemma recv_length: "recv s n = (d, s') \<Longrightarrow> length d \<le> n"
  by (induction s arbitrary: d s') (auto split: if_splits)

lemma recv_Nil: "recv s n = ([], s') \<Longrightarrow> 0 < n \<Longrightarrow> concat s = [] \<and> s' = []"
  by (induction s arbitrary: s') (auto split: if_splits)

lemma recv_closed: "concat s = [] \<Longrightarrow> recv s n = ([], [])"
  by (induction s) auto

lemma recv_loop_concat:
  "recv_loop s remaining acc = (pieces, rem', s') \<Longrightarrow>
     concat pieces = concat acc @ take (nat remaining) (concat s) \<and>
     concat s' = drop (nat remaining) (concat s) \<and>
     rem' = (if remaining \<le> 0 then remaining
             else remaining - int (min (nat remaining) (length (concat s))))"
proof (induction s remaining acc arbitrary: pieces rem' s' rule: recv_loop.induct)
  case (1 s remaining acc)
  show ?case
  proof (cases "0 < remaining")
    case False
    with "1.prems" show ?thesis by (simp add: recv_loop.simps)
  next
    case True
    obtain d s1 where rc: "recv s (nat (min remaining 8192)) = (d, s1)"
      by (cases "recv s (nat (min remaining 8192))")
    note cat = recv_concat [OF rc] and len = recv_length [OF rc]
    show ?thesis
    proof (cases "d = []")
      case True
      from rc True \<open>0 < remaining\<close> recv_Nil [of s "nat (min remaining 8192)" s1]
      have c0: "concat s = []" and s10: "s1 = []" by auto
      from "1.prems" \<open>0 < remaining\<close> rc True
      have "pieces = acc" "rem' = remaining" "s' = s1" by (simp_all add: recv_loop.simps)
      then show ?thesis unfolding c0 s10 using \<open>0 < remaining\<close> by simp
    next
      case False
      from "1.prems" \<open>0 < remaining\<close> rc False
      have rec: "recv_loop s1 (remaining - int (length d)) (acc @ [d]) = (pieces, rem', s')"
        by (simp add: recv_loop.simps)
      have ih: "concat pieces = concat (acc @ [d]) @ take (nat (remaining - int (length d))) (concat s1) \<and>
         concat s' = drop (nat (remaining - int (length d))) (concat s1) \<and>
         rem' = (if remaining - int (length d) \<le> 0 then remaining - int (length d)
                 else remaining - int (length d)
                      - int (min (nat (remaining - int (length d))) (length (concat s1))))"
        using "1.IH" [OF \<open>0 < remaining\<close> rc [symmetric] False rec] .
      have dl: "length d \<le> nat remaining" using len \<open>0 < remaining\<close> by simp
      have cs: "concat s = d @ concat s1" using cat by simp
      have n1: "nat (remaining - int (length d)) = nat remaining - length d" by simp
      from ih dl show ?thesis unfolding cs n1
        using \<open>0 < remaining\<close> by (auto simp: min_def)
    qed
  qed
qed

section \<open>Facts about the integer encoding\<close>

lemma enc_le_Suc: "enc_le (Suc n) v = char_of v # enc_le n (v div 256)"
proof -
  have "[0..<Suc n] = 0 # map Suc [0..<n]"
    by (simp add: upt_conv_Cons map_Suc_upt del: upt_Suc)
  then have "enc_le (Suc n) v = char_of (v div 256 ^ 0) # map (\<lambda>i. char_of (v div 256 ^ Suc i)) [0..<n]"
    unfolding enc_le_def by (simp add: comp_def del: upt_Suc)
  moreover have "\<And>i. v div 256 ^ Suc i = (v div 256) div 256 ^ i"
    by (simp add: zdiv_zmult2_eq)
  ultimately show ?thesis by (simp add: enc_le_def)
qed

lemma length_enc_le [simp]: "length (enc_le n v) = n"
  by (simp add: enc_le_def)

lemma dec_le_Cons: "dec_le (c # cs) = of_char c + 256 * dec_le cs"
  by (simp add: dec_le_def)

lemma dec_le_enc_le: "dec_le (enc_le n v) = v mod 256 ^ n"
proof (induction n arbitrary: v)
  case 0
  show ?case by (simp add: enc_le_def dec_le_def)
next
  case (Suc n)
  have "dec_le (enc_le (Suc n) v) = 256 * ((v div 256) mod 256 ^ n) + v mod 256"
    by (simp add: enc_le_Suc dec_le_Cons Suc.IH)
  also have "\<dots> = v mod (256 * 256 ^ n)"
    by (rule zmod_zmult2_eq [symmetric]) simp
  finally show ?case by simp
qed

lemma mod_twice_half:
  fixes v h :: int
  assumes "- h \<le> v" and "v < h"
  shows "v mod (2 * h) = (if 0 \<le> v then v else v + 2 * h)"
proof (cases "0 \<le> v")
  case True
  with assms show ?thesis by (simp add: mod_pos_pos_trivial)
next
  case False
  have "(v + 2 * h) mod (2 * h) = v + 2 * h"
    using assms False by (intro mod_pos_pos_trivial) linarith+
  moreover have "(v + 2 * h) mod (2 * h) = v mod (2 * h)"
    by (rule mod_add_self2)
  ultimately show ?thesis using False by simp
qed

lemma dec_int_enc_le:
  assumes "0 < n" and "- (2 ^ (8 * n - 1)) \<le> v" and "v < 2 ^ (8 * n - 1)"
  shows "dec_int (enc_le n v) = v"
proof -
  define h :: int where "h = 2 ^ (8 * n - 1)"
  have p: "(256::int) ^ n = 2 * h"
  proof -
    have "(256::int) ^ n = 2 ^ (8 * n)" by (simp add: power_mult)
    also have "8 * n = Suc (8 * n - 1)" using assms(1) by simp
    finally show ?thesis unfolding h_def by (simp only: power_Suc)
  qed
  have m: "v mod (2 * h) = (if 0 \<le> v then v else v + 2 * h)"
    using assms(2,3) unfolding h_def [symmetric] by (rule mod_twice_half)
  have "dec_le (enc_le n v) = v mod (2 * h)"
    by (simp only: dec_le_enc_le p)
  moreover have "(2::int) ^ (8 * length (enc_le n v)) = 2 * h"
    using p by (simp add: power_mult)
  moreover have "(2::int) ^ (8 * length (enc_le n v) - 1) = h"
    by (simp add: h_def)
  ultimately show ?thesis
    using m assms(2,3) unfolding h_def [symmetric] dec_int_def Let_def
    by (simp split: if_splits)
qed

lemma dec_int_enc_le4: "0 \<le> v \<Longrightarrow> v < 2 ^ 31 \<Longrightarrow> dec_int (enc_le 4 v) = v"
  using dec_int_enc_le [of 4 v] by simp

lemma dec_int_enc_le8: "0 \<le> v \<Longrightarrow> v < 2 ^ 63 \<Longrightarrow> dec_int (enc_le 8 v) = v"
  using dec_int_enc_le [of 8 v] by simp




section \<open>Facts about removef\<close>


lemma ext_a_pdf: "get_file_extension ''~S1/d/a.pdf'' = ''.pdf''"
  by (simp add: get_file_extension_def strrchr_def)



section \<open>The not-found sentinel\<close>









section \<open>Facts about uploadf\<close>

lemma unsupported_ext:
  assumes "get_server_for_file fl = -1"
  shows "get_file_extension fl \<noteq> ''.c''" "get_file_extension fl \<noteq> ''.pdf''"
        "get_file_extension fl \<noteq> ''.txt''" "get_file_extension fl \<noteq> ''.zip''"
  using assms by (simp_all add: get_server_for_file_def Let_def split: if_splits)

lemma uploadf_route_unsupported:
  "get_server_for_file fl = -1 \<Longrightarrow> uploadf_route call home dest full fl ust = ust"
  by (simp add: uploadf_route_def Let_def unsupported_ext)

lemma uploadf_route_c:
  "get_file_extension fl = ''.c'' \<Longrightarrow> uploadf_route call home dest full fl ust = ust"
  by (simp add: uploadf_route_def Let_def)

lemma uploadf_file_complete:
  assumes sock: "concat (up_sock ust) = enc_le 8 (int (length content)) @ content @ rest"
      and len: "length content < 2 ^ 63"
      and cc: "can_create (up_fs ust) (snprintf MAX_PATH_LEN (final @ ''/'' @ fl))"
  shows "\<exists>s2. concat s2 = rest \<and>
           uploadf_file call home dest final fl ust =
             uploadf_route call home dest (snprintf MAX_PATH_LEN (final @ ''/'' @ fl)) fl
               (ust\<lparr>up_sock := s2,
                    up_fs := write_file (up_fs ust) (snprintf MAX_PATH_LEN (final @ ''/'' @ fl)) content,
                    files_processed := files_processed ust + 1\<rparr>)"
proof -
  obtain sb s1 where w: "recv_waitall (up_sock ust) 8 = (sb, s1)"
    by (cases "recv_waitall (up_sock ust) 8")
  from recv_waitall_concat [OF w] sock
  have sb: "sb = enc_le 8 (int (length content))" and s1: "concat s1 = content @ rest"
    by simp_all
  have dec: "dec_int sb = int (length content)"
    unfolding sb using len by (intro dec_int_enc_le8) simp_all
  obtain pieces rm s2 where l: "recv_loop s1 (int (length content)) [] = (pieces, rm, s2)"
    by (cases "recv_loop s1 (int (length content)) []")
  from recv_loop_concat [OF l] s1
  have pc: "concat pieces = content" and s2: "concat s2 = rest"
    by simp_all
  have "uploadf_file call home dest final fl ust =
          uploadf_route call home dest (snprintf MAX_PATH_LEN (final @ ''/'' @ fl)) fl
               (ust\<lparr>up_sock := s2,
                    up_fs := write_file (up_fs ust) (snprintf MAX_PATH_LEN (final @ ''/'' @ fl)) content,
                    files_processed := files_processed ust + 1\<rparr>)"
    unfolding uploadf_file_def w using cc
    by (simp add: sb [symmetric] dec l pc Let_def) (simp add: sb)
  with s2 show ?thesis by blast
qed

lemma uploadf_file_calls_unrouted:
  assumes "\<And>full st. uploadf_route call home dest full fl st = st"
  shows "up_calls (uploadf_file call home dest final fl ust) = up_calls ust"
proof -
  obtain sb s1 where w: "recv_waitall (up_sock ust) 8 = (sb, s1)"
    by (cases "recv_waitall (up_sock ust) 8")
  obtain pieces rm s2 where l: "recv_loop s1 (dec_int sb) [] = (pieces, rm, s2)"
    by (cases "recv_loop s1 (dec_int sb) []")
  show ?thesis
    unfolding uploadf_file_def w by (simp add: l Let_def assms)
qed

text \<open>
  Claim C2, at a failing input: the client announces 5 bytes for \<^verbatim>\<open>a.c\<close>, sends 2 and
  closes. The coordinator reports 0 files processed and leaves the 2-byte file where it
  was being written.
\<close>

theorem uploadf_partial_file_remains:
  "fst (s1_handle_uploadf (\<lambda>p c f. None) ''/home/u'' ''uploadf a.c ~S1/docs'' [enc_le 8 5, ''ab'']
          \<lparr>files = [], dirs = [''/'', ''/home'', ''/home/u'', ''/home/u/S1'']\<rparr>)
     = ''Successfully processed 0 out of 1 files''
   \<and> fopen_rb (up_fs (snd (s1_handle_uploadf (\<lambda>p c f. None) ''/home/u'' ''uploadf a.c ~S1/docs''
          [enc_le 8 5, ''ab''] \<lparr>files = [], dirs = [''/'', ''/home'', ''/home/u'', ''/home/u/S1'']\<rparr>)))
        ''/home/u/S1/docs/a.c'' = Some ''ab''"
  by code_simp

text \<open>
  The storage node on the same truncated transfer removes what it has written.
\<close>

lemma node_partial_file_removed:
  "fopen_rb (fst (snd (handle_s1_request S2_cfg (\<lambda>c f. f) ''JUNKJUNK'' ''/home/u''
       \<lparr>files = [], dirs = [''/'', ''/home'', ''/home/u'', ''/home/u/S2'']\<rparr>
       [enc_le 4 15 @ ''/home/u/S2/docs'' @ enc_le 4 5 @ ''a.pdf'' @ enc_le 8 5 @ ''ab''])))
     ''/home/u/S2/docs/a.pdf'' = None"
  by code_simp

text \<open>
  Claim C4 as stated fails: an upload of \<^verbatim>\<open>notes.md\<close> is received, kept in the
  coordinator's own store and counted as processed.
\<close>

theorem unknown_type_upload_accepted:
  "fst (s1_handle_uploadf (\<lambda>p c f. None) ''/home/u'' ''uploadf notes.md ~S1/docs'' [enc_le 8 2, ''ab'']
          \<lparr>files = [], dirs = [''/'', ''/home'', ''/home/u'', ''/home/u/S1'']\<rparr>)
     = ''Successfully processed 1 out of 1 files''
   \<and> fopen_rb (up_fs (snd (s1_handle_uploadf (\<lambda>p c f. None) ''/home/u'' ''uploadf notes.md ~S1/docs''
          [enc_le 8 2, ''ab''] \<lparr>files = [], dirs = [''/'', ''/home'', ''/home/u'', ''/home/u/S1'']\<rparr>)))
        ''/home/u/S1/docs/notes.md'' = Some ''ab''"
  by code_simp

text \<open>
  Claim C4, amended. A file whose extension is none of .c, .pdf, .txt, .zip causes no call
  to a storage node, in removef and in uploadf. removef answers "Unsupported file type"
  for it and changes nothing else; uploadf receives the file, and when the transfer is
  complete keeps it under the coordinator's destination directory and counts it as
  processed.
\<close>

theorem unsupported_type_no_network_call:
  assumes "get_server_for_file fl = -1"
  shows "removef_file call home fl st
           = st\<lparr>response_msg := response_msg st @ ''Unsupported file type: '' @ fl @ ''; ''\<rparr>
         \<and> up_calls (uploadf_file call home dest final fl ust) = up_calls ust
         \<and> (concat (up_sock ust) = enc_le 8 (int (length content)) @ content @ rest
              \<and> length content < 2 ^ 63
              \<and> can_create (up_fs ust) (snprintf MAX_PATH_LEN (final @ ''/'' @ fl))
            \<longrightarrow> files_processed (uploadf_file call home dest final fl ust) = files_processed ust + 1
                \<and> up_fs (uploadf_file call home dest final fl ust)
                    = write_file (up_fs ust) (snprintf MAX_PATH_LEN (final @ ''/'' @ fl)) content)"
proof (intro conjI impI)
  show "removef_file call home fl st
           = st\<lparr>response_msg := response_msg st @ ''Unsupported file type: '' @ fl @ ''; ''\<rparr>"
    using unsupported_ext [OF assms] by (simp add: removef_file_def Let_def)
  show "up_calls (uploadf_file call home dest final fl ust) = up_calls ust"
    by (rule uploadf_file_calls_unrouted) (rule uploadf_route_unsupported [OF assms])
next
  assume h: "concat (up_sock ust) = enc_le 8 (int (length content)) @ content @ rest
              \<and> length content < 2 ^ 63
              \<and> can_create (up_fs ust) (snprintf MAX_PATH_LEN (final @ ''/'' @ fl))"
  from uploadf_file_complete [of ust content rest final fl call home dest] h
  obtain s2 where "uploadf_file call home dest final fl ust =
             uploadf_route call home dest (snprintf MAX_PATH_LEN (final @ ''/'' @ fl)) fl
               (ust\<lparr>up_sock := s2,
                    up_fs := write_file (up_fs ust) (snprintf MAX_PATH_LEN (final @ ''/'' @ fl)) content,
                    files_processed := files_processed ust + 1\<rparr>)"
    by blast
  then have e: "uploadf_file call home dest final fl ust =
               ust\<lparr>up_sock := s2,
                    up_fs := write_file (up_fs ust) (snprintf MAX_PATH_LEN (final @ ''/'' @ fl)) content,
                    files_processed := files_processed ust + 1\<rparr>"
    by (simp add: uploadf_route_unsupported [OF assms])
  show "files_processed (uploadf_file call home dest final fl ust) = files_processed ust + 1"
    by (simp add: e)
  show "up_fs (uploadf_file call home dest final fl ust)
                    = write_file (up_fs ust) (snprintf MAX_PATH_LEN (final @ ''/'' @ fl)) content"
    by (simp add: e)
qed

theorem unsupported_type_no_network_call_witness:
  "get_server_for_file ''notes.md'' = -1
   \<and> concat [enc_le 8 2, ''ab''] = enc_le 8 (int (length ''ab'')) @ ''ab'' @ []
   \<and> length ''ab'' < 2 ^ 63
   \<and> can_create \<lparr>files = [], dirs = [''/home/u/S1/docs'']\<rparr>
        (snprintf MAX_PATH_LEN (''/home/u/S1/docs'' @ ''/'' @ ''notes.md''))
   \<and> removef_file (\<lambda>p c f. None) ''/home/u'' ''notes.md''
         \<lparr>rm_fs = \<lparr>files = [], dirs = []\<rparr>, files_removed = 0, response_msg = [], rm_calls = []\<rparr>
       = \<lparr>rm_fs = \<lparr>files = [], dirs = []\<rparr>, files_removed = 0, response_msg = [], rm_calls = []\<rparr>
           \<lparr>response_msg := [] @ ''Unsupported file type: '' @ ''notes.md'' @ ''; ''\<rparr>
   \<and> up_calls (uploadf_file (\<lambda>p c f. None) ''/home/u'' ''~S1/docs'' ''/home/u/S1/docs'' ''notes.md''
         \<lparr>up_sock = [enc_le 8 2, ''ab''], up_fs = \<lparr>files = [], dirs = [''/home/u/S1/docs'']\<rparr>,
          files_processed = 0, up_calls = []\<rparr>) = []
   \<and> files_processed (uploadf_file (\<lambda>p c f. None) ''/home/u'' ''~S1/docs'' ''/home/u/S1/docs'' ''notes.md''
         \<lparr>up_sock = [enc_le 8 2, ''ab''], up_fs = \<lparr>files = [], dirs = [''/home/u/S1/docs'']\<rparr>,
          files_processed = 0, up_calls = []\<rparr>) = 0 + 1"
proof -
  have h1: "get_server_for_file ''notes.md'' = -1" by code_simp
  have h2: "concat [enc_le 8 2, ''ab''] = enc_le 8 (int (length ''ab'')) @ ''ab'' @ []" by simp
  have h3: "length ''ab'' < 2 ^ 63" by simp
  have h4: "can_create \<lparr>files = [], dirs = [''/home/u/S1/docs'']\<rparr>
        (snprintf MAX_PATH_LEN (''/home/u/S1/docs'' @ ''/'' @ ''notes.md''))" by code_simp
  note t = unsupported_type_no_network_call [OF h1, where call = "\<lambda>p c f. None" and home = "''/home/u''"
     and st = "\<lparr>rm_fs = \<lparr>files = [], dirs = []\<rparr>, files_removed = 0, response_msg = [], rm_calls = []\<rparr>"
     and dest = "''~S1/docs''" and final = "''/home/u/S1/docs''"
     and ust = "\<lparr>up_sock = [enc_le 8 2, ''ab''], up_fs = \<lparr>files = [], dirs = [''/home/u/S1/docs'']\<rparr>,
          files_processed = 0, up_calls = []\<rparr>" and content = "''ab''" and rest = "[]"]
  from t h1 h2 h3 h4 show ?thesis
    by (simp only: uploadf_state.simps removef_state.simps simp_thms)
qed


section \<open>Paths sent to storage nodes\<close>

lemma forward_from_aux_calls:
  "snd (snd (snd (forward_from_aux call junk cmd port f))) = [(port, [cmd])]"
proof (cases "call port [cmd] f")
  case None
  then show ?thesis by (simp add: forward_from_aux_def)
next
  case (Some a)
  obtain reply f' where a: "a = (reply, f')" by (cases a)
  obtain hdr rest where r: "recv reply 8 = (hdr, rest)" by (cases "recv reply 8")
  obtain pieces br rest' where
    l: "recv_loop rest (dec_int (take 8 (hdr @ drop (length hdr) junk))) [] = (pieces, br, rest')"
    by (cases "recv_loop rest (dec_int (take 8 (hdr @ drop (length hdr) junk))) []")
  from Some a r l show ?thesis by (simp add: forward_from_aux_def Let_def)
qed

lemma remote_triple_cases:
  assumes "(e, tag, port) \<in> {(''.pdf'', ''S2'', S2_PORT), (''.txt'', ''S3'', S3_PORT), (''.zip'', ''S4'', S4_PORT)}"
  obtains "e = ''.pdf''" "tag = ''S2''" "port = S2_PORT"
        | "e = ''.txt''" "tag = ''S3''" "port = S3_PORT"
        | "e = ''.zip''" "tag = ''S4''" "port = S4_PORT"
  using assms by blast

lemma downlf_file_remote:
  assumes "(get_file_extension fl, tag, port) \<in>
             {(''.pdf'', ''S2'', S2_PORT), (''.txt'', ''S3'', S3_PORT), (''.zip'', ''S4'', S4_PORT)}"
  shows "downlf_file call junk home fl f = snd (forward_file_from_aux_server call junk fl port tag f)"
  using assms by (rule remote_triple_cases) (simp_all add: downlf_file_def get_server_for_file_def)

lemma removef_file_remote:
  assumes "(get_file_extension fl, tag, port) \<in>
             {(''.pdf'', ''S2'', S2_PORT), (''.txt'', ''S3'', S3_PORT), (''.zip'', ''S4'', S4_PORT)}"
  shows "removef_file call home fl st = removef_remote call home tag port fl st"
  using assms by (rule remote_triple_cases) (simp_all add: removef_file_def)

lemma uploadf_route_remote:
  assumes "(get_file_extension fl, tag, port) \<in>
             {(''.pdf'', ''S2'', S2_PORT), (''.txt'', ''S3'', S3_PORT), (''.zip'', ''S4'', S4_PORT)}"
  shows "uploadf_route call home dest full fl ust = uploadf_forward call home tag port dest full ust"
  using assms by (rule remote_triple_cases) (simp_all add: uploadf_route_def)

lemma removef_remote_calls:
  "rm_calls (removef_remote call home tag port fl st) =
     rm_calls st @ [(port, [snprintf (MAX_PATH_LEN + 20)
                      (''DELETE '' @ snprintf MAX_PATH_LEN (home @ ''/'' @ tag @ drop 3 fl))])]"
  by (simp add: removef_remote_def Let_def split: prod.splits)

lemma send_to_server_calls:
  "\<exists>sends. snd (snd (send_to_server call filepath dest_path port f)) = [(port, sends)] \<and>
           take 2 sends = [enc_le 4 (int (length dest_path)), dest_path]"
proof (cases "posix_basename (take (MAX_PATH_LEN - 1) filepath) = []")
  case True
  then show ?thesis by (simp add: send_to_server_def Let_def split: option.splits)
next
  case False
  then show ?thesis
    by (cases "fopen_rb f filepath")
       (simp_all add: send_to_server_def Let_def upload_message_def split: option.splits)
qed

lemma uploadf_forward_calls:
  "\<exists>sends. up_calls (uploadf_forward call home tag port dest full ust) = up_calls ust @ [(port, sends)] \<and>
           take 2 sends = [enc_le 4 (int (length (snprintf MAX_PATH_LEN (home @ ''/'' @ tag @ drop 3 dest)))),
                           snprintf MAX_PATH_LEN (home @ ''/'' @ tag @ drop 3 dest)]"
proof -
  let ?d = "snprintf MAX_PATH_LEN (home @ ''/'' @ tag @ drop 3 dest)"
  obtain r f' cl where s: "send_to_server call full ?d port (up_fs ust) = (r, f', cl)"
    by (cases "send_to_server call full ?d port (up_fs ust)")
  from send_to_server_calls [of call full ?d port "up_fs ust"] s
  obtain sends where "cl = [(port, sends)]" "take 2 sends = [enc_le 4 (int (length ?d)), ?d]"
    by auto
  with s show ?thesis by (simp add: uploadf_forward_def Let_def)
qed

lemma get_files_from_server_calls:
  "snd (snd (snd (get_files_from_server call port path f)))
     = [(port, [snprintf (MAX_PATH_LEN + 20) (''LIST '' @ path)])]"
  by (simp add: get_files_from_server_def Let_def split: option.splits prod.splits)

lemma dispfnames_calls:
  assumes "drop 1 (tokens is_space command) = pathname # others"
      and "take 3 pathname = ''~S1''"
      and "is_dir f (snprintf MAX_PATH_LEN (home @ ''/S1'' @ drop 3 pathname))"
  shows "snd (snd (s1_handle_dispfnames call home command f)) =
     [(S2_PORT, [snprintf (MAX_PATH_LEN + 20) (''LIST '' @ snprintf MAX_PATH_LEN (home @ ''/S2'' @ drop 3 pathname))]),
      (S3_PORT, [snprintf (MAX_PATH_LEN + 20) (''LIST '' @ snprintf MAX_PATH_LEN (home @ ''/S3'' @ drop 3 pathname))]),
      (S4_PORT, [snprintf (MAX_PATH_LEN + 20) (''LIST '' @ snprintf MAX_PATH_LEN (home @ ''/S4'' @ drop 3 pathname))])]"
proof -
  let ?p2 = "snprintf MAX_PATH_LEN (home @ ''/S2'' @ drop 3 pathname)"
  let ?p3 = "snprintf MAX_PATH_LEN (home @ ''/S3'' @ drop 3 pathname)"
  let ?p4 = "snprintf MAX_PATH_LEN (home @ ''/S4'' @ drop 3 pathname)"
  obtain r2 l2 f2 c2 where g2: "get_files_from_server call S2_PORT ?p2 f = (r2, l2, f2, c2)"
    by (cases "get_files_from_server call S2_PORT ?p2 f")
  obtain r3 l3 f3 c3 where g3: "get_files_from_server call S3_PORT ?p3 f2 = (r3, l3, f3, c3)"
    by (cases "get_files_from_server call S3_PORT ?p3 f2")
  obtain r4 l4 f4 c4 where g4: "get_files_from_server call S4_PORT ?p4 f3 = (r4, l4, f4, c4)"
    by (cases "get_files_from_server call S4_PORT ?p4 f3")
  from get_files_from_server_calls [of call S2_PORT ?p2 f] g2
  have c2: "c2 = [(S2_PORT, [snprintf (MAX_PATH_LEN + 20) (''LIST '' @ ?p2)])]" by simp
  from get_files_from_server_calls [of call S3_PORT ?p3 f2] g3
  have c3: "c3 = [(S3_PORT, [snprintf (MAX_PATH_LEN + 20) (''LIST '' @ ?p3)])]" by simp
  from get_files_from_server_calls [of call S4_PORT ?p4 f3] g4
  have c4: "c4 = [(S4_PORT, [snprintf (MAX_PATH_LEN + 20) (''LIST '' @ ?p4)])]" by simp
  have "s1_handle_dispfnames call home command f =
          (format_listing (snd (get_local_c_files f (snprintf MAX_PATH_LEN (home @ ''/S1'' @ drop 3 pathname))))
             l2 l3 l4, f4, c2 @ c3 @ c4)"
    unfolding s1_handle_dispfnames_def assms(1)
    by (simp only: list.case Let_def g2 g3 g4 prod.case assms(2,3) simp_thms if_False if_True)
  then show ?thesis
    by (simp only: snd_conv c2 c3 c4 append_Cons append_Nil)
qed

text \<open>
  Claim C5 as stated fails: the DELETE command for \<^verbatim>\<open>~S1/d/a.pdf\<close> carries the
  absolute path under the node's storage root, not a path starting with \<^verbatim>\<open>~S2\<close>.
\<close>

theorem delete_sends_absolute_path:
  "snd (snd (s1_handle_removef (\<lambda>p c f. None) ''/home/u'' ''removef ~S1/d/a.pdf'' \<lparr>files = [], dirs = []\<rparr>))
     = [(S2_PORT, [''DELETE /home/u/S2/d/a.pdf''])]
   \<and> take 3 (drop 7 ''DELETE /home/u/S2/d/a.pdf'') \<noteq> ''~S2''"
  by code_simp

text \<open>
  Claim C5, amended. For a file of a remote type, the coordinator replaces the first three
  characters of the client's path before sending: a fetch sends \<^verbatim>\<open>~S2\<close>, \<^verbatim>\<open>~S3\<close> or
  \<^verbatim>\<open>~S4\<close> followed by the rest of the path; a delete, an upload and a list send the
  absolute path made of \<^verbatim>\<open>$HOME\<close>, the node's directory and the rest of the path.
\<close>

theorem forwarded_paths_rewritten:
  assumes "(get_file_extension fl, tag, port) \<in>
             {(''.pdf'', ''S2'', S2_PORT), (''.txt'', ''S3'', S3_PORT), (''.zip'', ''S4'', S4_PORT)}"
  shows "snd (snd (downlf_file call junk home fl f))
           = [(port, [snprintf BUFFER_SIZE (''GET_FILE '' @ ''~'' @ tag @ drop 3 fl)])]
       \<and> rm_calls (removef_file call home fl st)
           = rm_calls st @ [(port, [snprintf (MAX_PATH_LEN + 20)
                              (''DELETE '' @ snprintf MAX_PATH_LEN (home @ ''/'' @ tag @ drop 3 fl))])]
       \<and> (\<exists>sends. up_calls (uploadf_route call home dest full fl ust) = up_calls ust @ [(port, sends)]
              \<and> take 2 sends =
                  [enc_le 4 (int (length (snprintf MAX_PATH_LEN (home @ ''/'' @ tag @ drop 3 dest)))),
                   snprintf MAX_PATH_LEN (home @ ''/'' @ tag @ drop 3 dest)])
       \<and> (drop 1 (tokens is_space command) = pathname # others \<and> take 3 pathname = ''~S1''
            \<and> is_dir f (snprintf MAX_PATH_LEN (home @ ''/S1'' @ drop 3 pathname))
          \<longrightarrow> snd (snd (s1_handle_dispfnames call home command f)) =
               [(S2_PORT, [snprintf (MAX_PATH_LEN + 20)
                             (''LIST '' @ snprintf MAX_PATH_LEN (home @ ''/S2'' @ drop 3 pathname))]),
                (S3_PORT, [snprintf (MAX_PATH_LEN + 20)
                             (''LIST '' @ snprintf MAX_PATH_LEN (home @ ''/S3'' @ drop 3 pathname))]),
                (S4_PORT, [snprintf (MAX_PATH_LEN + 20)
                             (''LIST '' @ snprintf MAX_PATH_LEN (home @ ''/S4'' @ drop 3 pathname))])])"
proof (intro conjI impI)
  show "snd (snd (downlf_file call junk home fl f))
           = [(port, [snprintf BUFFER_SIZE (''GET_FILE '' @ ''~'' @ tag @ drop 3 fl)])]"
    unfolding downlf_file_remote [OF assms] forward_file_from_aux_server_def
    using forward_from_aux_calls [of call junk _ port f]
    by (simp add: convert_path_for_server_def)
  show "rm_calls (removef_file call home fl st)
           = rm_calls st @ [(port, [snprintf (MAX_PATH_LEN + 20)
                              (''DELETE '' @ snprintf MAX_PATH_LEN (home @ ''/'' @ tag @ drop 3 fl))])]"
    unfolding removef_file_remote [OF assms] by (rule removef_remote_calls)
  show "\<exists>sends. up_calls (uploadf_route call home dest full fl ust) = up_calls ust @ [(port, sends)]
              \<and> take 2 sends =
                  [enc_le 4 (int (length (snprintf MAX_PATH_LEN (home @ ''/'' @ tag @ drop 3 dest)))),
                   snprintf MAX_PATH_LEN (home @ ''/'' @ tag @ drop 3 dest)]"
    unfolding uploadf_route_remote [OF assms] by (rule uploadf_forward_calls)
next
  assume "drop 1 (tokens is_space command) = pathname # others \<and> take 3 pathname = ''~S1''
            \<and> is_dir f (snprintf MAX_PATH_LEN (home @ ''/S1'' @ drop 3 pathname))"
  then show "snd (snd (s1_handle_dispfnames call home command f)) =
               [(S2_PORT, [snprintf (MAX_PATH_LEN + 20)
                             (''LIST '' @ snprintf MAX_PATH_LEN (home @ ''/S2'' @ drop 3 pathname))]),
                (S3_PORT, [snprintf (MAX_PATH_LEN + 20)
                             (''LIST '' @ snprintf MAX_PATH_LEN (home @ ''/S3'' @ drop 3 pathname))]),
                (S4_PORT, [snprintf (MAX_PATH_LEN + 20)
                             (''LIST '' @ snprintf MAX_PATH_LEN (home @ ''/S4'' @ drop 3 pathname))])]"
    using dispfnames_calls [of command pathname others f home call] by blast
qed

theorem forwarded_paths_rewritten_witness:
  "(get_file_extension ''~S1/d/a.pdf'', ''S2'', S2_PORT) \<in>
             {(''.pdf'', ''S2'', S2_PORT), (''.txt'', ''S3'', S3_PORT), (''.zip'', ''S4'', S4_PORT)}
   \<and> drop 1 (tokens is_space ''dispfnames ~S1/d'') = ''~S1/d'' # []
   \<and> take 3 ''~S1/d'' = ''~S1''
   \<and> is_dir \<lparr>files = [], dirs = [''/home/u/S1/d'']\<rparr> (snprintf MAX_PATH_LEN (''/home/u'' @ ''/S1'' @ drop 3 ''~S1/d''))
   \<and> snd (snd (downlf_file (\<lambda>p c f. None) ''JUNKJUNK'' ''/home/u'' ''~S1/d/a.pdf''
                  \<lparr>files = [], dirs = [''/home/u/S1/d'']\<rparr>))
           = [(S2_PORT, [snprintf BUFFER_SIZE (''GET_FILE '' @ ''~'' @ ''S2'' @ drop 3 ''~S1/d/a.pdf'')])]
   \<and> snd (snd (s1_handle_dispfnames (\<lambda>p c f. None) ''/home/u'' ''dispfnames ~S1/d''
                  \<lparr>files = [], dirs = [''/home/u/S1/d'']\<rparr>)) =
               [(S2_PORT, [snprintf (MAX_PATH_LEN + 20)
                             (''LIST '' @ snprintf MAX_PATH_LEN (''/home/u'' @ ''/S2'' @ drop 3 ''~S1/d''))]),
                (S3_PORT, [snprintf (MAX_PATH_LEN + 20)
                             (''LIST '' @ snprintf MAX_PATH_LEN (''/home/u'' @ ''/S3'' @ drop 3 ''~S1/d''))]),
                (S4_PORT, [snprintf (MAX_PATH_LEN + 20)
                             (''LIST '' @ snprintf MAX_PATH_LEN (''/home/u'' @ ''/S4'' @ drop 3 ''~S1/d''))])]"
proof -
  have h1: "(get_file_extension ''~S1/d/a.pdf'', ''S2'', S2_PORT) \<in>
             {(''.pdf'', ''S2'', S2_PORT), (''.txt'', ''S3'', S3_PORT), (''.zip'', ''S4'', S4_PORT)}"
    by (simp add: ext_a_pdf)
  have h2: "drop 1 (tokens is_space ''dispfnames ~S1/d'') = ''~S1/d'' # []" by code_simp
  have h3: "take 3 ''~S1/d'' = ''~S1''" by simp
  have h4: "is_dir \<lparr>files = [], dirs = [''/home/u/S1/d'']\<rparr>
              (snprintf MAX_PATH_LEN (''/home/u'' @ ''/S1'' @ drop 3 ''~S1/d''))" by code_simp
  note t = forwarded_paths_rewritten [OF h1, where call = "\<lambda>p c f. None" and junk = "''JUNKJUNK''"
     and home = "''/home/u''" and f = "\<lparr>files = [], dirs = [''/home/u/S1/d'']\<rparr>"
     and command = "''dispfnames ~S1/d''" and pathname = "''~S1/d''" and others = "[]"]
  from t h1 h2 h3 h4 show ?thesis by blast
qed

section \<open>Invalid length fields\<close>

lemma cstr_no_nul: "CHR 0x00 \<notin> set s \<Longrightarrow> cstr s = s"
  by (auto simp: cstr_def takeWhile_eq_all_conv)

lemma files_mkdir [simp]: "files (mkdir f p) = files f"
  by (simp add: mkdir_def)

lemma files_foldl_mkdir [simp]: "files (foldl mkdir f ps) = files f"
  by (induction ps arbitrary: f) simp_all

lemma files_ensure_directory_exists [simp]: "files (ensure_directory_exists f p) = files f"
  by (simp add: ensure_directory_exists_def Let_def)

lemma handle_upload_request_bad_dest_len:
  assumes "4 \<le> length buf"
      and "dec_int (take 4 buf) \<le> 0 \<or> int MAX_PATH_LEN \<le> dec_int (take 4 buf)"
  shows "handle_upload_request junk f s buf = (f, s)"
  using assms by (simp add: handle_upload_request_def Let_def)

lemma upload_fields_bad_name_len:
  assumes "take_field (take 4 junk) 4 b2 s = (Some (len_bytes, b3), s1)"
      and "dec_int len_bytes \<le> 0 \<or> 256 \<le> dec_int len_bytes"
  shows "upload_fields junk f1 s dest_path b2 = (f1, s1)"
  using assms by (simp add: upload_fields_def Let_def)

lemma handle_upload_request_bad_name_len:
  assumes "4 \<le> length buf"
      and "0 < dec_int (take 4 buf)" and "dec_int (take 4 buf) < int MAX_PATH_LEN"
      and "dec_int (take 4 buf) \<le> int (length (drop 4 buf))"
      and "take_field (take 4 junk) 4 (drop (nat (dec_int (take 4 buf))) (drop 4 buf)) s
             = (Some (len_bytes, b3), s1)"
      and "dec_int len_bytes \<le> 0 \<or> 256 \<le> dec_int len_bytes"
  shows "handle_upload_request junk f s buf
           = (ensure_directory_exists f (cstr (take (nat (dec_int (take 4 buf))) (drop 4 buf))), s1)"
  using assms(1-4) upload_fields_bad_name_len [OF assms(5,6)]
  by (simp add: handle_upload_request_def Let_def)

lemma s4_parse_header_bad_name_len:
  assumes "4 \<le> int (length buf)"
      and "4 + dec_int (take 4 buf) < 2 ^ 31"
      and "0 \<le> 4 + dec_int (take 4 buf)"
      and "dec_int (take 4 (drop (nat (4 + dec_int (take 4 buf))) buf)) \<le> 0
           \<or> int MAX_PATH_LEN \<le> dec_int (take 4 (drop (nat (4 + dec_int (take 4 buf))) buf))"
      and "8 + dec_int (take 4 buf) + dec_int (take 4 (drop (nat (4 + dec_int (take 4 buf))) buf)) < 2 ^ 31"
  shows "s4_parse_header buf = Defined None"
  using assms by (auto simp add: s4_parse_header_def Let_def)

lemma handle_file_upload_bad_name_len:
  assumes "4 \<le> int (length buf)"
      and "4 + dec_int (take 4 buf) < 2 ^ 31"
      and "0 \<le> 4 + dec_int (take 4 buf)"
      and "dec_int (take 4 (drop (nat (4 + dec_int (take 4 buf))) buf)) \<le> 0
           \<or> int MAX_PATH_LEN \<le> dec_int (take 4 (drop (nat (4 + dec_int (take 4 buf))) buf))"
      and "8 + dec_int (take 4 buf) + dec_int (take 4 (drop (nat (4 + dec_int (take 4 buf))) buf)) < 2 ^ 31"
  shows "handle_file_upload home f s buf = Defined (f, s)"
  by (simp add: handle_file_upload_def s4_parse_header_bad_name_len [OF assms])

lemma s4_parse_header_skips_path:
  assumes pl: "pl = 0 \<or> int MAX_PATH_LEN \<le> pl" "int (length skipped) = pl"
      and nm: "0 < length name" "length name < MAX_PATH_LEN" "CHR 0x00 \<notin> set name"
      and sz: "0 \<le> fsize" "fsize < 2 ^ 63"
      and len: "length (enc_le 4 pl @ skipped @ enc_le 4 (int (length name)) @ name @ enc_le 8 fsize @ payload)
                  \<le> BUFFER_SIZE * 2 - 1"
  shows "s4_parse_header (enc_le 4 pl @ skipped @ enc_le 4 (int (length name)) @ name @ enc_le 8 fsize @ payload)
           = Defined (Some ([], name, fsize, 16 + pl + int (length name)))"
proof -
  define buf where "buf = enc_le 4 pl @ skipped @ enc_le 4 (int (length name)) @ name @ enc_le 8 fsize @ payload"
  have pl0: "0 \<le> pl" "pl < 2 ^ 31" "nat pl = length skipped"
    using pl(2) len by (simp_all add: BUFFER_SIZE_def)
  have tot: "int (length buf) = 16 + pl + int (length name) + int (length payload)"
    using pl(2) by (simp add: buf_def)
  have big: "(16::int) + pl + int (length name) + int (length payload) < 2 ^ 31"
    using len tot by (simp add: BUFFER_SIZE_def buf_def)
  have nl: "int (length name) < 2 ^ 31" using nm(2) by (simp add: MAX_PATH_LEN_def)
  have d1: "dec_int (take 4 buf) = pl"
    using pl0 by (simp add: dec_int_enc_le4 buf_def)
  have d2: "dec_int (take 4 (drop (nat (4 + pl)) buf)) = int (length name)"
  proof -
    have "nat (4 + pl) = 4 + length skipped" using pl0 by simp
    then have "take 4 (drop (nat (4 + pl)) buf) = enc_le 4 (int (length name))" by (simp add: buf_def)
    then show ?thesis using nl by (simp add: dec_int_enc_le4)
  qed
  have d3: "cstr (take (nat (int (length name))) (drop (nat (4 + pl + 4)) buf)) = name"
  proof -
    have "nat (4 + pl + 4) = 4 + length skipped + 4" using pl0 by simp
    then have "take (nat (int (length name))) (drop (nat (4 + pl + 4)) buf) = name" by (simp add: buf_def)
    then show ?thesis using nm(3) by (simp add: cstr_no_nul)
  qed
  have d4: "dec_int (take 8 (drop (nat (4 + pl + 4 + int (length name))) buf)) = fsize"
  proof -
    have "nat (4 + pl + 4 + int (length name)) = 4 + length skipped + 4 + length name"
      using pl0 by simp
    then have "take 8 (drop (nat (4 + pl + 4 + int (length name))) buf) = enc_le 8 fsize"
      by (simp add: buf_def)
    then show ?thesis using sz by (simp add: dec_int_enc_le8)
  qed
  have c: "\<not> 4 > int (length buf)" "\<not> 2 ^ 31 \<le> 4 + pl" "\<not> 4 + pl > int (length buf)"
          "\<not> (0 < pl \<and> pl < int MAX_PATH_LEN)" "\<not> 4 + pl + 4 > int (length buf)" "\<not> 4 + pl < 0"
          "\<not> 2 ^ 31 \<le> 4 + pl + 4 + int (length name)"
          "\<not> 4 + pl + 4 + int (length name) > int (length buf)"
          "0 < int (length name) \<and> int (length name) < int MAX_PATH_LEN"
          "4 + pl + 4 + int (length name) + 8 \<le> int (length buf)"
    using pl0(1) pl(1) nm(1,2) big unfolding tot by auto
  have pos: "4 + pl + 4 + int (length name) + 8 = 16 + pl + int (length name)" by simp
  have "s4_parse_header buf = Defined (Some ([], name, fsize, 16 + pl + int (length name)))"
    unfolding s4_parse_header_def Let_def d1 d2
    by (simp only: c c(10) [unfolded pos] d3 d4 pos if_False if_True simp_thms)
  then show ?thesis by (simp only: buf_def)
qed

lemma recv_loop_done: "remaining \<le> 0 \<Longrightarrow> recv_loop s remaining acc = (acc, remaining, s)"
  by (subst recv_loop.simps) simp

lemma s4_store_base_directory:
  assumes ext: "strrchr CHR ''.'' name = Some i" "drop i name = ''.zip''"
      and sz: "0 < length content" "int (length content) \<le> MAX_FILE_SIZE"
      and payload: "drop (nat pos) buf = content"
      and ok: "can_create (ensure_directory_exists f (snprintf MAX_PATH_LEN (home @ ''/S4'')))
                 (snprintf MAX_PATH_LEN (snprintf MAX_PATH_LEN (home @ ''/S4'') @ ''/'' @ name))"
  shows "s4_store home f s buf [] name (int (length content)) pos
           = (write_file (ensure_directory_exists f (snprintf MAX_PATH_LEN (home @ ''/S4'')))
                (snprintf MAX_PATH_LEN (snprintf MAX_PATH_LEN (home @ ''/S4'') @ ''/'' @ name)) content, s)"
proof -
  have ne: "name \<noteq> []" using ext(2) by auto
  have d: "dec_int (enc_le 8 (int (length content))) = int (length content)"
    using sz by (intro dec_int_enc_le8) (simp_all add: MAX_FILE_SIZE_def)
  have l: "recv_loop s (int (length content) - int (length content)) [] = ([], 0, s)"
    by (simp add: recv_loop_done)
  have rp: "s4_receive_payload (ensure_directory_exists f (snprintf MAX_PATH_LEN (home @ ''/S4'')))
              (snprintf MAX_PATH_LEN (snprintf MAX_PATH_LEN (home @ ''/S4'') @ ''/'' @ name))
              content s (int (length content))
            = (write_file (ensure_directory_exists f (snprintf MAX_PATH_LEN (home @ ''/S4'')))
                (snprintf MAX_PATH_LEN (snprintf MAX_PATH_LEN (home @ ''/S4'') @ ''/'' @ name)) content, s)"
    unfolding s4_receive_payload_def Let_def
    by (simp only: ok simp_thms if_False l prod.case concat.simps append_Nil2 if_True)
  show ?thesis
    unfolding s4_store_def Let_def
    using ext ne sz rp by (simp add: d payload)
qed

lemma handle_file_upload_skips_path:
  assumes pl: "pl = 0 \<or> int MAX_PATH_LEN \<le> pl" "int (length skipped) = pl"
      and nm: "0 < length name" "length name < MAX_PATH_LEN" "CHR 0x00 \<notin> set name"
      and ext: "strrchr CHR ''.'' name = Some i" "drop i name = ''.zip''"
      and sz: "0 < length content" "int (length content) \<le> MAX_FILE_SIZE"
      and len: "length (enc_le 4 pl @ skipped @ enc_le 4 (int (length name)) @ name
                        @ enc_le 8 (int (length content)) @ content) \<le> BUFFER_SIZE * 2 - 1"
      and ok: "can_create (ensure_directory_exists f (snprintf MAX_PATH_LEN (home @ ''/S4'')))
                 (snprintf MAX_PATH_LEN (snprintf MAX_PATH_LEN (home @ ''/S4'') @ ''/'' @ name))"
  shows "handle_file_upload home f s
           (enc_le 4 pl @ skipped @ enc_le 4 (int (length name)) @ name
            @ enc_le 8 (int (length content)) @ content)
           = Defined (write_file (ensure_directory_exists f (snprintf MAX_PATH_LEN (home @ ''/S4'')))
                        (snprintf MAX_PATH_LEN (snprintf MAX_PATH_LEN (home @ ''/S4'') @ ''/'' @ name))
                        content, s)"
proof -
  let ?buf = "enc_le 4 pl @ skipped @ enc_le 4 (int (length name)) @ name
              @ enc_le 8 (int (length content)) @ content"
  have f63: "int (length content) < 2 ^ 63" using sz(2) by (simp add: MAX_FILE_SIZE_def)
  have ph: "s4_parse_header ?buf = Defined (Some ([], name, int (length content), 16 + pl + int (length name)))"
    using pl nm _ f63 len by (rule s4_parse_header_skips_path) simp
  have "0 \<le> pl" using pl(2) by simp
  then have "nat (16 + pl + int (length name)) = 4 + length skipped + 4 + length name + 8"
    using pl(2) by simp
  then have dr: "drop (nat (16 + pl + int (length name))) ?buf = content" by simp
  show ?thesis
    unfolding handle_file_upload_def ph
    by (simp add: s4_store_base_directory [OF ext sz dr ok])
qed

text \<open>
  Claim C7 as stated fails for S4: a destination-path length of 0 does not abort the
  message. The file is written to the base directory of S4.
\<close>

theorem s4_zero_path_length_stores:
  "dec_int (take 4 (enc_le 4 0 @ enc_le 4 5 @ ''a.zip'' @ enc_le 8 2 @ ''PK'')) = 0
   \<and> handle_file_upload ''/home/u'' \<lparr>files = [], dirs = [''/home/u'', ''/home/u/S4'']\<rparr> []
         (enc_le 4 0 @ enc_le 4 5 @ ''a.zip'' @ enc_le 8 2 @ ''PK'')
       = Defined (\<lparr>files = [(''/home/u/S4/a.zip'', ''PK'')], dirs = [''/home/u'', ''/home/u/S4'']\<rparr>, [])"
  by code_simp

text \<open>
  Claim C7, amended. The decoder of S2 and S3 aborts on a destination-path length that is
  not between 1 and 1023, leaving the file system and the socket as they are, and on a
  name length that is not between 1 and 255, writing no file and reading nothing after
  the name length. The decoder of S4 aborts on a name length that is not between 1 and
  1023, leaving the file system and the socket as they are. A destination-path length of
  0, or of 1024 or more with that many bytes in the first read, is no error for S4: the
  decoder skips the path bytes and takes the base directory of S4 for the destination,
  so that an upload of a \<^verbatim>\<open>.zip\<close> file that is whole in the first read is stored there.
\<close>

theorem invalid_length_aborts:
  "(4 \<le> length buf \<and> (dec_int (take 4 buf) \<le> 0 \<or> int MAX_PATH_LEN \<le> dec_int (take 4 buf))
      \<longrightarrow> handle_upload_request junk f s buf = (f, s))
   \<and> (4 \<le> length buf \<and> 0 < dec_int (take 4 buf) \<and> dec_int (take 4 buf) < int MAX_PATH_LEN
        \<and> dec_int (take 4 buf) \<le> int (length (drop 4 buf))
        \<and> take_field (take 4 junk) 4 (drop (nat (dec_int (take 4 buf))) (drop 4 buf)) s
             = (Some (len_bytes, rest_buf), sock_after)
        \<and> (dec_int len_bytes \<le> 0 \<or> 256 \<le> dec_int len_bytes)
      \<longrightarrow> snd (handle_upload_request junk f s buf) = sock_after
          \<and> files (fst (handle_upload_request junk f s buf)) = files f)
   \<and> (4 \<le> int (length buf) \<and> 4 + dec_int (take 4 buf) < 2 ^ 31 \<and> 0 \<le> 4 + dec_int (take 4 buf)
        \<and> (dec_int (take 4 (drop (nat (4 + dec_int (take 4 buf))) buf)) \<le> 0
            \<or> int MAX_PATH_LEN \<le> dec_int (take 4 (drop (nat (4 + dec_int (take 4 buf))) buf)))
        \<and> 8 + dec_int (take 4 buf) + dec_int (take 4 (drop (nat (4 + dec_int (take 4 buf))) buf)) < 2 ^ 31
      \<longrightarrow> handle_file_upload home f s buf = Defined (f, s))
   \<and> ((pl = 0 \<or> int MAX_PATH_LEN \<le> pl) \<and> int (length skipped) = pl
        \<and> 0 < length name \<and> length name < MAX_PATH_LEN \<and> CHR 0x00 \<notin> set name
        \<and> strrchr CHR ''.'' name = Some i \<and> drop i name = ''.zip''
        \<and> 0 < length content \<and> int (length content) \<le> MAX_FILE_SIZE
        \<and> length (enc_le 4 pl @ skipped @ enc_le 4 (int (length name)) @ name
                   @ enc_le 8 (int (length content)) @ content) \<le> BUFFER_SIZE * 2 - 1
        \<and> can_create (ensure_directory_exists f (snprintf MAX_PATH_LEN (home @ ''/S4'')))
              (snprintf MAX_PATH_LEN (snprintf MAX_PATH_LEN (home @ ''/S4'') @ ''/'' @ name))
      \<longrightarrow> handle_file_upload home f s
            (enc_le 4 pl @ skipped @ enc_le 4 (int (length name)) @ name
             @ enc_le 8 (int (length content)) @ content)
          = Defined (write_file (ensure_directory_exists f (snprintf MAX_PATH_LEN (home @ ''/S4'')))
                       (snprintf MAX_PATH_LEN (snprintf MAX_PATH_LEN (home @ ''/S4'') @ ''/'' @ name))
                       content, s))"
proof (intro conjI impI)
  assume "4 \<le> length buf \<and> (dec_int (take 4 buf) \<le> 0 \<or> int MAX_PATH_LEN \<le> dec_int (take 4 buf))"
  then show "handle_upload_request junk f s buf = (f, s)"
    using handle_upload_request_bad_dest_len [of buf junk f s] by blast
next
  assume h: "4 \<le> length buf \<and> 0 < dec_int (take 4 buf) \<and> dec_int (take 4 buf) < int MAX_PATH_LEN
        \<and> dec_int (take 4 buf) \<le> int (length (drop 4 buf))
        \<and> take_field (take 4 junk) 4 (drop (nat (dec_int (take 4 buf))) (drop 4 buf)) s
             = (Some (len_bytes, rest_buf), sock_after)
        \<and> (dec_int len_bytes \<le> 0 \<or> 256 \<le> dec_int len_bytes)"
  then have e: "handle_upload_request junk f s buf
           = (ensure_directory_exists f (cstr (take (nat (dec_int (take 4 buf))) (drop 4 buf))), sock_after)"
    using handle_upload_request_bad_name_len [of buf junk s len_bytes rest_buf sock_after f] by blast
  show "snd (handle_upload_request junk f s buf) = sock_after" by (simp add: e)
  show "files (fst (handle_upload_request junk f s buf)) = files f" by (simp add: e)
next
  assume "4 \<le> int (length buf) \<and> 4 + dec_int (take 4 buf) < 2 ^ 31 \<and> 0 \<le> 4 + dec_int (take 4 buf)
        \<and> (dec_int (take 4 (drop (nat (4 + dec_int (take 4 buf))) buf)) \<le> 0
            \<or> int MAX_PATH_LEN \<le> dec_int (take 4 (drop (nat (4 + dec_int (take 4 buf))) buf)))
        \<and> 8 + dec_int (take 4 buf) + dec_int (take 4 (drop (nat (4 + dec_int (take 4 buf))) buf)) < 2 ^ 31"
  then show "handle_file_upload home f s buf = Defined (f, s)"
    using handle_file_upload_bad_name_len [of buf home f s] by blast
next
  assume "(pl = 0 \<or> int MAX_PATH_LEN \<le> pl) \<and> int (length skipped) = pl
        \<and> 0 < length name \<and> length name < MAX_PATH_LEN \<and> CHR 0x00 \<notin> set name
        \<and> strrchr CHR ''.'' name = Some i \<and> drop i name = ''.zip''
        \<and> 0 < length content \<and> int (length content) \<le> MAX_FILE_SIZE
        \<and> length (enc_le 4 pl @ skipped @ enc_le 4 (int (length name)) @ name
                   @ enc_le 8 (int (length content)) @ content) \<le> BUFFER_SIZE * 2 - 1
        \<and> can_create (ensure_directory_exists f (snprintf MAX_PATH_LEN (home @ ''/S4'')))
              (snprintf MAX_PATH_LEN (snprintf MAX_PATH_LEN (home @ ''/S4'') @ ''/'' @ name))"
  then show "handle_file_upload home f s
            (enc_le 4 pl @ skipped @ enc_le 4 (int (length name)) @ name
             @ enc_le 8 (int (length content)) @ content)
          = Defined (write_file (ensure_directory_exists f (snprintf MAX_PATH_LEN (home @ ''/S4'')))
                       (snprintf MAX_PATH_LEN (snprintf MAX_PATH_LEN (home @ ''/S4'') @ ''/'' @ name))
                       content, s)"
    using handle_file_upload_skips_path [of pl skipped name i content f home s] by blast
qed

theorem invalid_length_aborts_witness:
  "4 \<le> length (enc_le 4 0 @ ''/d'') \<and> dec_int (take 4 (enc_le 4 0 @ ''/d'')) \<le> 0
   \<and> handle_upload_request ''JUNKJUNK'' \<lparr>files = [], dirs = [''/d'']\<rparr> [''more''] (enc_le 4 0 @ ''/d'')
       = (\<lparr>files = [], dirs = [''/d'']\<rparr>, [''more''])
   \<and> 4 \<le> length (enc_le 4 2 @ ''/d'' @ enc_le 4 0 @ ''a.pdf'')
   \<and> 0 < dec_int (take 4 (enc_le 4 2 @ ''/d'' @ enc_le 4 0 @ ''a.pdf''))
   \<and> take_field (take 4 ''JUNKJUNK'') 4
        (drop (nat (dec_int (take 4 (enc_le 4 2 @ ''/d'' @ enc_le 4 0 @ ''a.pdf''))))
           (drop 4 (enc_le 4 2 @ ''/d'' @ enc_le 4 0 @ ''a.pdf''))) [''more'']
        = (Some (enc_le 4 0, ''a.pdf''), [''more''])
   \<and> dec_int (enc_le 4 0) \<le> 0
   \<and> snd (handle_upload_request ''JUNKJUNK'' \<lparr>files = [], dirs = [''/d'']\<rparr> [''more'']
             (enc_le 4 2 @ ''/d'' @ enc_le 4 0 @ ''a.pdf'')) = [''more'']
   \<and> files (fst (handle_upload_request ''JUNKJUNK'' \<lparr>files = [], dirs = [''/d'']\<rparr> [''more'']
             (enc_le 4 2 @ ''/d'' @ enc_le 4 0 @ ''a.pdf''))) = files \<lparr>files = [], dirs = [''/d'']\<rparr>
   \<and> handle_file_upload ''/home/u'' \<lparr>files = [], dirs = [''/d'']\<rparr> [''more'']
         (enc_le 4 2 @ ''/d'' @ enc_le 4 0 @ ''a.zip'') = Defined (\<lparr>files = [], dirs = [''/d'']\<rparr>, [''more''])
   \<and> handle_file_upload ''/home/u'' \<lparr>files = [], dirs = [''/home/u'', ''/home/u/S4'']\<rparr> [''more'']
         (enc_le 4 1024 @ replicate 1024 (CHR ''x'') @ enc_le 4 (int (length ''a.zip'')) @ ''a.zip''
          @ enc_le 8 (int (length ''PK'')) @ ''PK'')
       = Defined (\<lparr>files = [(''/home/u/S4/a.zip'', ''PK'')], dirs = [''/home/u'', ''/home/u/S4'']\<rparr>, [''more''])"
proof -
  let ?b1 = "enc_le 4 0 @ ''/d''"
  let ?b2 = "enc_le 4 2 @ ''/d'' @ enc_le 4 0 @ ''a.pdf''"
  let ?b3 = "enc_le 4 2 @ ''/d'' @ enc_le 4 0 @ ''a.zip''"
  let ?f = "\<lparr>files = [], dirs = [''/d'']\<rparr>"
  have a1: "4 \<le> length ?b1" by simp
  have a2: "dec_int (take 4 ?b1) \<le> 0" by code_simp
  have b1: "4 \<le> length ?b2" by simp
  have b2: "0 < dec_int (take 4 ?b2)" by code_simp
  have b3: "dec_int (take 4 ?b2) < int MAX_PATH_LEN" by code_simp
  have b4: "dec_int (take 4 ?b2) \<le> int (length (drop 4 ?b2))" by code_simp
  have b5: "take_field (take 4 ''JUNKJUNK'') 4 (drop (nat (dec_int (take 4 ?b2))) (drop 4 ?b2)) [''more'']
        = (Some (enc_le 4 0, ''a.pdf''), [''more''])" by code_simp
  have b6: "dec_int (enc_le 4 0) \<le> 0" by code_simp
  have c1: "4 \<le> int (length ?b3)" by simp
  have c2: "4 + dec_int (take 4 ?b3) < 2 ^ 31" by code_simp
  have c3: "0 \<le> 4 + dec_int (take 4 ?b3)" by code_simp
  have c4: "dec_int (take 4 (drop (nat (4 + dec_int (take 4 ?b3))) ?b3)) \<le> 0" by code_simp
  have c5: "8 + dec_int (take 4 ?b3) + dec_int (take 4 (drop (nat (4 + dec_int (take 4 ?b3))) ?b3)) < 2 ^ 31"
    by code_simp
  note t1 = invalid_length_aborts [where buf = ?b1 and junk = "''JUNKJUNK''" and f = ?f and s = "[''more'']"]
  note t2 = invalid_length_aborts [where buf = ?b2 and junk = "''JUNKJUNK''" and f = ?f and s = "[''more'']"
      and len_bytes = "enc_le 4 0" and rest_buf = "''a.pdf''" and sock_after = "[''more'']"]
  note t3 = invalid_length_aborts [where buf = ?b3 and home = "''/home/u''" and f = ?f and s = "[''more'']"]
  have r1: "handle_upload_request ''JUNKJUNK'' ?f [''more''] ?b1 = (?f, [''more''])"
    using t1 a1 a2 by blast
  have r2: "snd (handle_upload_request ''JUNKJUNK'' ?f [''more''] ?b2) = [''more'']
            \<and> files (fst (handle_upload_request ''JUNKJUNK'' ?f [''more''] ?b2)) = files ?f"
    using t2 b1 b2 b3 b4 b5 b6 by blast
  have r3: "handle_file_upload ''/home/u'' ?f [''more''] ?b3 = Defined (?f, [''more''])"
    using t3 c1 c2 c3 c4 c5 by blast
  let ?g = "\<lparr>files = [], dirs = [''/home/u'', ''/home/u/S4'']\<rparr>"
  have e1: "(1024::int) = 0 \<or> int MAX_PATH_LEN \<le> 1024" by (simp add: MAX_PATH_LEN_def)
  have e2: "int (length (replicate 1024 (CHR ''x''))) = 1024" by simp
  have e3: "0 < length ''a.zip''" "length ''a.zip'' < MAX_PATH_LEN" "CHR 0x00 \<notin> set ''a.zip''"
    by (simp_all add: MAX_PATH_LEN_def)
  have e4: "strrchr CHR ''.'' ''a.zip'' = Some 1" "drop 1 ''a.zip'' = ''.zip''" by code_simp+
  have e5: "0 < length ''PK''" "int (length ''PK'') \<le> MAX_FILE_SIZE" by (simp_all add: MAX_FILE_SIZE_def)
  have e6: "length (enc_le 4 1024 @ replicate 1024 (CHR ''x'') @ enc_le 4 (int (length ''a.zip'')) @ ''a.zip''
                    @ enc_le 8 (int (length ''PK'')) @ ''PK'') \<le> BUFFER_SIZE * 2 - 1"
    by (simp add: BUFFER_SIZE_def)
  have e7: "can_create (ensure_directory_exists ?g (snprintf MAX_PATH_LEN (''/home/u'' @ ''/S4'')))
              (snprintf MAX_PATH_LEN (snprintf MAX_PATH_LEN (''/home/u'' @ ''/S4'') @ ''/'' @ ''a.zip''))"
    by code_simp
  have e8: "write_file (ensure_directory_exists ?g (snprintf MAX_PATH_LEN (''/home/u'' @ ''/S4'')))
              (snprintf MAX_PATH_LEN (snprintf MAX_PATH_LEN (''/home/u'' @ ''/S4'') @ ''/'' @ ''a.zip'')) ''PK''
            = \<lparr>files = [(''/home/u/S4/a.zip'', ''PK'')], dirs = [''/home/u'', ''/home/u/S4'']\<rparr>"
    by code_simp
  note t4 = invalid_length_aborts [where pl = 1024 and skipped = "replicate 1024 (CHR ''x'')"
      and name = "''a.zip''" and i = 1 and content = "''PK''" and f = ?g and home = "''/home/u''"
      and s = "[''more'']"]
  have r4: "handle_file_upload ''/home/u'' ?g [''more'']
         (enc_le 4 1024 @ replicate 1024 (CHR ''x'') @ enc_le 4 (int (length ''a.zip'')) @ ''a.zip''
          @ enc_le 8 (int (length ''PK'')) @ ''PK'')
       = Defined (\<lparr>files = [(''/home/u/S4/a.zip'', ''PK'')], dirs = [''/home/u'', ''/home/u/S4'']\<rparr>, [''more''])"
    using t4 e1 e2 e3 e4 e5 e6 e7 unfolding e8 [symmetric] by blast
  from a1 a2 r1 b1 b2 b5 b6 r2 r3 r4 show ?thesis by (intro conjI) blast+
qed

section \<open>Facts about dispfnames\<close>




lemma length_get_files_from_server:
  "length (fst (snd (get_files_from_server call port path f))) \<le> MAX_FILES"
  by (simp add: get_files_from_server_def Let_def split: option.splits prod.splits)

lemma length_get_local_c_files:
  "length (snd (get_local_c_files f p)) \<le> MAX_FILES"
  by (simp add: get_local_c_files_def)








section \<open>Sorting the names\<close>










section \<open>The shape of the listing\<close>



lemma list_lines_append: "list_lines (xs @ ys) = list_lines xs @ list_lines ys"
  by (simp add: list_lines_def)


















lemma length_list_lines_append_le:
  "length (list_lines b) \<le> length (list_lines (a @ b))"
  "length (list_lines a) \<le> length (list_lines (a @ b))"
  by (simp_all add: list_lines_append)







text \<open>
  Two slips of the coordinator stand between the stored files and the listing. The names
  of a source are sorted through an array of pointers and then copied back, one after
  the other, into the array the pointers point into: a name that is not yet in its place
  is overwritten before it is read. With the local directory read as \<^verbatim>\<open>b.c\<close>, \<^verbatim>\<open>a.c\<close> the
  listing names \<^verbatim>\<open>a.c\<close> twice and \<^verbatim>\<open>b.c\<close> not at all.
\<close>

lemma unsorted_names_overwritten:
  "sort_names [''b.c'', ''a.c''] = [''a.c'', ''a.c'']
   \<and> sort_names [''c.c'', ''a.c'', ''b.c''] = [''a.c'', ''b.c'', ''a.c'']
   \<and> fst (s1_handle_dispfnames (\<lambda>p c f. None) ''/home/u'' ''dispfnames ~S1/d''
          \<lparr>files = [(''/home/u/S1/d/b.c'', ''x''), (''/home/u/S1/d/a.c'', ''y'')],
            dirs = [''/home/u/S1/d'']\<rparr>)
       = ''Files found: 2 (.c: 2, .pdf: 0, .txt: 0, .zip: 0)'' @ [CHR 0x0A]
         @ ''a.c'' @ [CHR 0x0A] @ ''a.c'' @ [CHR 0x0A]"
  by code_simp

text \<open>
  A node's answer for a directory without a file of its type is one line that the
  coordinator does not recognise as a status line: it is listed, and counted, as a file.
\<close>

lemma empty_answer_kept_as_name:
  "handle_list_request S2_cfg ''/home/u/S2/d'' \<lparr>files = [], dirs = [''/home/u/S2/d'']\<rparr>
     = [''No .pdf files found in S2'']
   \<and> list_line_kept ''No .pdf files found in S2''
   \<and> fst (s1_handle_dispfnames
          (system_call \<lparr>port_up = (\<lambda>p. p = S2_PORT), to_node = (\<lambda>c. c), to_s1 = (\<lambda>c. c)\<rparr> (\<lambda>c f. f)
             ''JUNKJUNK'' ''/home/u'')
          ''/home/u'' ''dispfnames ~S1/d''
          \<lparr>files = [], dirs = [''/home/u/S1/d'', ''/home/u/S2/d'']\<rparr>)
       = ''Files found: 1 (.c: 0, .pdf: 1, .txt: 0, .zip: 0)'' @ [CHR 0x0A]
         @ ''No .pdf files found in S2'' @ [CHR 0x0A]"
  by code_simp




section \<open>The upload decoder of S2 and S3 on a fragmented message\<close>

lemma concat_read_chunks [simp]: "concat (read_chunks content) = content"
proof (induction content rule: read_chunks.induct)
  case (1 content)
  show ?case
  proof (cases "content = []")
    case True
    then show ?thesis by (simp add: read_chunks.simps)
  next
    case False
    with "1.IH" have "concat (read_chunks (drop 8192 content)) = drop 8192 content" by simp
    with False show ?thesis by (subst read_chunks.simps) simp
  qed
qed

lemma concat_upload_message:
  "concat (upload_message dest name content) =
     enc_le 4 (int (length dest)) @ dest @ enc_le 4 (int (length name)) @ name
     @ enc_le 8 (int (length content)) @ content"
  by (simp add: upload_message_def)

lemma cstr_padded: "CHR 0x00 \<notin> set s \<Longrightarrow> cstr (s @ replicate k (CHR 0x00)) = s"
proof -
  assume a: "CHR 0x00 \<notin> set s"
  have "takeWhile (\<lambda>c. c \<noteq> CHR 0x00) (s @ replicate k (CHR 0x00))
          = s @ takeWhile (\<lambda>c. c \<noteq> CHR 0x00) (replicate k (CHR 0x00))"
    using a by (intro takeWhile_append2) auto
  also have "takeWhile (\<lambda>c. c \<noteq> CHR 0x00) (replicate k (CHR 0x00)) = []"
    by (cases k) simp_all
  finally show ?thesis by (simp add: cstr_def)
qed

lemma take_field_stream:
  assumes "n \<le> length (b @ concat s)" and "0 < n"
  shows "\<exists>pad b' s'. take_field old n b s = (Some (take n (b @ concat s) @ pad, b'), s')
            \<and> b' @ concat s' = drop n (b @ concat s) \<and> (pad = [] \<or> pad = drop n old)"
proof (cases "n \<le> length b")
  case True
  then have "take_field old n b s = (Some (take n (b @ concat s) @ [], drop n b), s)"
    by (simp add: take_field_def)
  moreover have "drop n b @ concat s = drop n (b @ concat s)" using True by simp
  ultimately show ?thesis by blast
next
  case False
  obtain r s' where w: "recv_waitall s (n - length b) = (r, s')"
    by (cases "recv_waitall s (n - length b)")
  from recv_waitall_concat [OF w]
  have r: "r = take (n - length b) (concat s)" and s': "concat s' = drop (n - length b) (concat s)"
    by simp_all
  have lr: "length r = n - length b" using r assms(1) False by simp
  then have "r \<noteq> []" using False by auto
  then have tf: "take_field old n b s = (Some (b @ r @ drop (length b + length r) old, []), s')"
    using False w by (simp add: take_field_def)
  have "length b + length r = n" using lr False by simp
  moreover have "take n (b @ concat s) = b @ r" using False r by simp
  ultimately have "take_field old n b s = (Some (take n (b @ concat s) @ drop n old, []), s')"
    using tf by simp
  moreover have "[] @ concat s' = drop n (b @ concat s)" using s' False by simp
  ultimately show ?thesis by blast
qed

lemma receive_payload_complete:
  assumes "b @ concat s = content"
  shows "\<exists>s'. receive_payload f1 full b s (int (length content))
            = ((if can_create f1 full then write_file f1 full content else f1), s')"
proof (cases "can_create f1 full")
  case False
  then show ?thesis by (simp add: receive_payload_def)
next
  case True
  obtain pieces rm s' where l: "recv_loop s (int (length content) - int (length b)) [] = (pieces, rm, s')"
    by (cases "recv_loop s (int (length content) - int (length b)) []")
  have len: "length content = length b + length (concat s)" using assms by (metis length_append)
  from recv_loop_concat [OF l] have "concat pieces = take (nat (int (length content) - int (length b))) (concat s)"
    by simp
  then have "concat pieces = concat s" using len by simp
  then have bc: "b @ concat pieces = content" using assms by simp
  then have "int (length (b @ concat pieces)) = int (length content)" by simp
  with True l bc show ?thesis by (simp add: receive_payload_def Let_def del: length_append)
qed


lemma upload_fields_complete:
  assumes nm: "0 < length name" "length name < 256" "CHR 0x00 \<notin> set name"
      and cl: "length content < 2 ^ 63"
      and st: "b2 @ concat s = enc_le 4 (int (length name)) @ name @ enc_le 8 (int (length content)) @ content"
  shows "\<exists>s'. upload_fields junk f1 s dest b2
            = ((if can_create f1 (snprintf MAX_PATH_LEN (dest @ ''/'' @ name))
                then write_file f1 (snprintf MAX_PATH_LEN (dest @ ''/'' @ name)) content else f1), s')"
proof -
  let ?e4 = "enc_le 4 (int (length name))"
  let ?e8 = "enc_le 8 (int (length content))"
  have "4 \<le> length (b2 @ concat s)" unfolding st by simp
  from take_field_stream [OF this, of "take 4 junk"]
  obtain pad1 b3 s1 where
    t1: "take_field (take 4 junk) 4 b2 s = (Some (take 4 (b2 @ concat s) @ pad1, b3), s1)"
    and r1: "b3 @ concat s1 = drop 4 (b2 @ concat s)"
    and p1: "pad1 = [] \<or> pad1 = drop 4 (take 4 junk)"
    by auto
  have pad1: "pad1 = []" using p1 by auto
  have f1: "take 4 (b2 @ concat s) @ pad1 = ?e4" unfolding st pad1 by simp
  have st2: "b3 @ concat s1 = name @ ?e8 @ content" unfolding r1 st by simp
  have d1: "dec_int ?e4 = int (length name)"
    using nm(2) by (intro dec_int_enc_le4) simp_all
  have "length name \<le> length (b3 @ concat s1)" unfolding st2 by simp
  from take_field_stream [OF this nm(1), of "replicate 256 (CHR 0x00)"]
  obtain pad2 b4 s2 where
    t2: "take_field (replicate 256 (CHR 0x00)) (length name) b3 s1
           = (Some (take (length name) (b3 @ concat s1) @ pad2, b4), s2)"
    and r2: "b4 @ concat s2 = drop (length name) (b3 @ concat s1)"
    and p2: "pad2 = [] \<or> pad2 = drop (length name) (replicate 256 (CHR 0x00))"
    by auto
  have f2: "take (length name) (b3 @ concat s1) @ pad2 = name @ pad2" unfolding st2 by simp
  have c2: "cstr (name @ pad2) = name"
    using p2 cstr_padded [OF nm(3), of "256 - length name"] cstr_no_nul [OF nm(3)] by auto
  have st3: "b4 @ concat s2 = ?e8 @ content" unfolding r2 st2 by simp
  have "8 \<le> length (b4 @ concat s2)" unfolding st3 by simp
  from take_field_stream [OF this, of "take 8 junk"]
  obtain pad3 b5 s3 where
    t3: "take_field (take 8 junk) 8 b4 s2 = (Some (take 8 (b4 @ concat s2) @ pad3, b5), s3)"
    and r3: "b5 @ concat s3 = drop 8 (b4 @ concat s2)"
    and p3: "pad3 = [] \<or> pad3 = drop 8 (take 8 junk)"
    by auto
  have pad3: "pad3 = []" using p3 by auto
  have f3: "take 8 (b4 @ concat s2) @ pad3 = ?e8" unfolding st3 pad3 by simp
  have d3: "dec_int ?e8 = int (length content)"
    using cl by (intro dec_int_enc_le8) simp_all
  have st4: "b5 @ concat s3 = content" unfolding r3 st3 by simp
  from receive_payload_complete [OF st4, of f1 "snprintf MAX_PATH_LEN (dest @ ''/'' @ name)"]
  obtain s' where rp: "receive_payload f1 (snprintf MAX_PATH_LEN (dest @ ''/'' @ name)) b5 s3 (int (length content))
            = ((if can_create f1 (snprintf MAX_PATH_LEN (dest @ ''/'' @ name))
                then write_file f1 (snprintf MAX_PATH_LEN (dest @ ''/'' @ name)) content else f1), s')"
    by blast
  have "upload_fields junk f1 s dest b2
            = ((if can_create f1 (snprintf MAX_PATH_LEN (dest @ ''/'' @ name))
                then write_file f1 (snprintf MAX_PATH_LEN (dest @ ''/'' @ name)) content else f1), s')"
    unfolding upload_fields_def t1 f1
    using nm(1,2)
    by (simp only: prod.case option.case Let_def d1 nat_int t2 f2 c2 t3 f3 d3 rp)
       simp
  then show ?thesis by blast
qed


lemma handle_upload_request_complete:
  assumes d: "0 < length dest" "length dest < 1024" "CHR 0x00 \<notin> set dest"
      and nm: "0 < length name" "length name < 256" "CHR 0x00 \<notin> set name"
      and cl: "length content < 2 ^ 63"
      and st: "buf @ concat s = concat (upload_message dest name content)"
      and first: "4 + length dest \<le> length buf"
  shows "\<exists>s'. handle_upload_request junk f s buf
            = ((if can_create (ensure_directory_exists f dest) (snprintf MAX_PATH_LEN (dest @ ''/'' @ name))
                then write_file (ensure_directory_exists f dest) (snprintf MAX_PATH_LEN (dest @ ''/'' @ name)) content
                else ensure_directory_exists f dest), s')"
proof -
  let ?e4 = "enc_le 4 (int (length dest))"
  let ?tail = "enc_le 4 (int (length name)) @ name @ enc_le 8 (int (length content)) @ content"
  have msg: "buf @ concat s = ?e4 @ dest @ ?tail"
    using st by (simp add: concat_upload_message)
  have "take (4 + length dest) (buf @ concat s) = take (4 + length dest) buf"
    using first by simp
  then have pre: "take (4 + length dest) buf = ?e4 @ dest"
    unfolding msg by simp
  have t4: "take 4 buf = ?e4"
  proof -
    have "take 4 buf = take 4 (take (4 + length dest) buf)" by (simp add: min_def)
    then show ?thesis unfolding pre by simp
  qed
  have td: "take (length dest) (drop 4 buf) = dest"
  proof -
    have "take (length dest) (drop 4 buf) = drop 4 (take (4 + length dest) buf)"
      by (simp add: drop_take)
    then show ?thesis unfolding pre by simp
  qed
  have rest: "drop (length dest) (drop 4 buf) @ concat s = ?tail"
  proof -
    have "drop (length dest) (drop 4 buf) @ concat s = drop (4 + length dest) (buf @ concat s)"
      using first by (simp add: add.commute)
    then show ?thesis unfolding msg by simp
  qed
  have dl: "dec_int ?e4 = int (length dest)"
    using d(2) by (intro dec_int_enc_le4) simp_all
  from upload_fields_complete [OF nm cl rest, of junk "ensure_directory_exists f dest" dest]
  obtain s' where uf: "upload_fields junk (ensure_directory_exists f dest) s dest (drop (length dest) (drop 4 buf))
            = ((if can_create (ensure_directory_exists f dest) (snprintf MAX_PATH_LEN (dest @ ''/'' @ name))
                then write_file (ensure_directory_exists f dest) (snprintf MAX_PATH_LEN (dest @ ''/'' @ name)) content
                else ensure_directory_exists f dest), s')"
    by blast
  have "handle_upload_request junk f s buf
            = ((if can_create (ensure_directory_exists f dest) (snprintf MAX_PATH_LEN (dest @ ''/'' @ name))
                then write_file (ensure_directory_exists f dest) (snprintf MAX_PATH_LEN (dest @ ''/'' @ name)) content
                else ensure_directory_exists f dest), s')"
    unfolding handle_upload_request_def Let_def t4 dl
    using d(1,2) first
    by (simp add: MAX_PATH_LEN_def td cstr_no_nul [OF d(3)] uf [unfolded drop_drop MAX_PATH_LEN_def])
  then show ?thesis by blast
qed

lemma tokens_short:
  "length s \<le> 2 \<Longrightarrow> tokens d s = [] \<or> (\<exists>w. tokens d s = [w])"
proof -
  assume "length s \<le> 2"
  then consider "s = []" | a where "s = [a]" | a b where "s = [a, b]"
    by (cases s; cases "tl s"; cases "tl (tl s)") auto
  then show ?thesis
    by cases (auto simp: tokens_def)
qed

lemma enc_le_4_small:
  assumes "0 \<le> n" and "n < 1024"
  shows "enc_le 4 n = [char_of n, char_of (n div 256), CHR 0x00, CHR 0x00]"
proof -
  have z: "n div 256 div 256 = 0" using assms by simp
  have "enc_le 4 n = enc_le (Suc (Suc (Suc (Suc 0)))) n" by (simp add: numeral_eq_Suc)
  also have "\<dots> = [char_of n, char_of (n div 256), char_of (n div 256 div 256),
                    char_of (n div 256 div 256 div 256)]"
    by (simp only: enc_le_Suc) (simp add: enc_le_def)
  finally show ?thesis by (simp add: z char_of_def)
qed

lemma header_text_short:
  assumes "0 \<le> n" and "n < 1024"
  shows "length (cstr (enc_le 4 n @ rest)) \<le> 2"
  unfolding enc_le_4_small [OF assms] cstr_def by simp


lemma short_text_no_command:
  assumes "length t \<le> 2"
  shows "take 7 t \<noteq> ''DELETE ''" and "take 5 t \<noteq> ''LIST ''"
proof -
  have "length (take 7 t) \<le> 2" "length (take 5 t) \<le> 2" using assms by simp_all
  then show "take 7 t \<noteq> ''DELETE ''" and "take 5 t \<noteq> ''LIST ''" by auto
qed

lemma handle_s1_request_upload:
  assumes d: "0 < length dest" "length dest < 1024" "CHR 0x00 \<notin> set dest"
      and nm: "0 < length name" "length name < 256" "CHR 0x00 \<notin> set name"
      and cl: "length content < 2 ^ 63"
      and frag: "concat (c # rest) = concat (upload_message dest name content)"
      and first: "4 + length dest \<le> length c"
  shows "\<exists>s'. handle_s1_request cfg system junk home f (c # rest)
           = ([], (if can_create (ensure_directory_exists f dest) (snprintf MAX_PATH_LEN (dest @ ''/'' @ name))
                   then write_file (ensure_directory_exists f dest) (snprintf MAX_PATH_LEN (dest @ ''/'' @ name)) content
                   else ensure_directory_exists f dest), s')"
proof -
  obtain buf s1 where rc: "recv (c # rest) (BUFFER_SIZE - 1) = (buf, s1)"
    by (cases "recv (c # rest) (BUFFER_SIZE - 1)")
  have cat: "buf @ concat s1 = concat (upload_message dest name content)"
    using recv_concat [OF rc] frag by simp
  have cne: "c \<noteq> []" using first by auto
  have bl: "4 + length dest \<le> length buf"
    using rc cne first d(2) by (auto simp: BUFFER_SIZE_def split: if_splits)
  then have bne: "buf \<noteq> []" by auto
  have "take 4 (buf @ concat s1) = take 4 buf" using bl by simp
  then have t4: "take 4 buf = enc_le 4 (int (length dest))"
    unfolding cat by (simp add: concat_upload_message)
  have dl: "dec_int (take 4 buf) = int (length dest)"
    unfolding t4 using d(2) by (intro dec_int_enc_le4) simp_all
  have "buf = take 4 buf @ drop 4 buf" by simp
  then have "buf = enc_le 4 (int (length dest)) @ drop 4 buf" unfolding t4 .
  then have "length (cstr buf) = length (cstr (enc_le 4 (int (length dest)) @ drop 4 buf))" by simp
  also have "\<dots> \<le> 2" using d(2) by (intro header_text_short) simp_all
  finally have short: "length (cstr buf) \<le> 2" .
  note nocmd = short_text_no_command [OF short]
  from tokens_short [OF short, of c_isspace]
  have tk: "(case tokens c_isspace (cstr buf) of
               command # parameter # x \<Rightarrow> A command parameter
             | _ \<Rightarrow> B) = B" for A :: "string \<Rightarrow> string \<Rightarrow> string list \<times> fs \<times> sock" and B
    by auto
  from handle_upload_request_complete [OF d nm cl cat bl, of junk f]
  obtain s' where hu: "handle_upload_request junk f s1 buf
            = ((if can_create (ensure_directory_exists f dest) (snprintf MAX_PATH_LEN (dest @ ''/'' @ name))
                then write_file (ensure_directory_exists f dest) (snprintf MAX_PATH_LEN (dest @ ''/'' @ name)) content
                else ensure_directory_exists f dest), s')"
    by blast
  have g: "4 \<le> length buf \<and> 0 < dec_int (take 4 buf) \<and> dec_int (take 4 buf) < int MAX_PATH_LEN"
    using bl d(1,2) unfolding dl by (simp add: MAX_PATH_LEN_def)
  have "handle_s1_request cfg system junk home f (c # rest)
           = ([], (if can_create (ensure_directory_exists f dest) (snprintf MAX_PATH_LEN (dest @ ''/'' @ name))
                   then write_file (ensure_directory_exists f dest) (snprintf MAX_PATH_LEN (dest @ ''/'' @ name)) content
                   else ensure_directory_exists f dest), s')"
    unfolding handle_s1_request_def rc
    by (simp only: prod.case bne if_False Let_def nocmd tk g if_True hu simp_thms)
  then show ?thesis by blast
qed

text \<open>
  Claim C3 fails where the first read ends before the end of the destination path: the
  decoder gives the message up ("Insufficient data for destination path"), although it
  completes the name length, the name and the file size from the socket when the first
  read ends inside them. The same message is stored when it comes in one piece and
  dropped when it is split after its first four bytes. That split is the one of the
  coordinator's own \<^verbatim>\<open>send\<close> calls, the length and the path being sent one after the other:
  when each of them arrives on its own, the upload of \<^verbatim>\<open>a.pdf\<close> is answered with success, the
  coordinator removes its copy, and the file is stored nowhere.
\<close>

theorem split_inside_path_changes_result:
  "fopen_rb (fst (snd (handle_s1_request S2_cfg (\<lambda>c f. f) ''JUNKJUNK'' ''/home/u''
                \<lparr>files = [], dirs = [''/'', ''/d'']\<rparr>
                [concat (upload_message ''/d'' ''a.pdf'' ''hi'')]))) ''/d/a.pdf'' = Some ''hi''
   \<and> fopen_rb (fst (snd (handle_s1_request S2_cfg (\<lambda>c f. f) ''JUNKJUNK'' ''/home/u''
                \<lparr>files = [], dirs = [''/'', ''/d'']\<rparr>
                [take 4 (concat (upload_message ''/d'' ''a.pdf'' ''hi'')),
                 drop 4 (concat (upload_message ''/d'' ''a.pdf'' ''hi''))]))) ''/d/a.pdf'' = None
   \<and> (let r = s1_handle_uploadf
                (system_call \<lparr>port_up = (\<lambda>p. True), to_node = (\<lambda>c. c), to_s1 = (\<lambda>c. c)\<rparr> (\<lambda>c f. f)
                   ''JUNKJUNK'' ''/home/u'')
                ''/home/u'' ''uploadf a.pdf ~S1/d'' [enc_le 8 2 @ ''hi'']
                \<lparr>files = [], dirs = [''/'', ''/home'', ''/home/u'', ''/home/u/S1'', ''/home/u/S2'']\<rparr>
        in fst r = ''Successfully processed 1 out of 1 files'' \<and> files (up_fs (snd r)) = [])"
  by code_simp

text \<open>
  Where the first read holds the path length and the whole path, the decoder of S2 and S3
  is independent of the fragmentation. A well-formed upload message (path of 1 to 1023
  bytes, name of 1 to 255 bytes, neither with a NUL byte) reaches the decoder in
  fragments, the first of which holds at least the path length and the path. Then the
  outcome is the one of the unsplit message: the file with the whole payload at the path
  made of the destination and the name, where that file can be created; nothing is sent
  back. The bytes that came with the first read are used, not asked for again.
\<close>

lemma upload_decoder_fragment_independent:
  assumes "0 < length dest" "length dest < 1024" "CHR 0x00 \<notin> set dest"
      and "0 < length name" "length name < 256" "CHR 0x00 \<notin> set name"
      and "length content < 2 ^ 63"
      and "concat (c # rest) = concat (upload_message dest name content)"
      and "4 + length dest \<le> length c"
  shows "fst (snd (handle_s1_request cfg system junk home f (c # rest)))
           = fst (snd (handle_s1_request cfg system junk home f [concat (upload_message dest name content)]))
       \<and> fst (snd (handle_s1_request cfg system junk home f (c # rest)))
           = (if can_create (ensure_directory_exists f dest) (snprintf MAX_PATH_LEN (dest @ ''/'' @ name))
              then write_file (ensure_directory_exists f dest) (snprintf MAX_PATH_LEN (dest @ ''/'' @ name)) content
              else ensure_directory_exists f dest)
       \<and> fst (handle_s1_request cfg system junk home f (c # rest)) = []"
proof -
  let ?m = "concat (upload_message dest name content)"
  let ?r = "if can_create (ensure_directory_exists f dest) (snprintf MAX_PATH_LEN (dest @ ''/'' @ name))
              then write_file (ensure_directory_exists f dest) (snprintf MAX_PATH_LEN (dest @ ''/'' @ name)) content
              else ensure_directory_exists f dest"
  from handle_s1_request_upload [OF assms, of cfg system junk home f]
  obtain s1 where a: "handle_s1_request cfg system junk home f (c # rest) = ([], ?r, s1)"
    by blast
  have whole: "concat [?m] = ?m" by simp
  have "4 + length dest \<le> length ?m" by (simp add: concat_upload_message)
  from handle_s1_request_upload [OF assms(1-7) whole this, of cfg system junk home f]
  obtain s2 where b: "handle_s1_request cfg system junk home f [?m] = ([], ?r, s2)"
    by blast
  show ?thesis by (simp only: a b fst_conv snd_conv simp_thms)
qed

lemma upload_decoder_fragment_independent_example:
  "concat (take 6 (concat (upload_message ''/d'' ''a.pdf'' ''hi''))
           # map (\<lambda>b. [b]) (drop 6 (concat (upload_message ''/d'' ''a.pdf'' ''hi''))))
     = concat (upload_message ''/d'' ''a.pdf'' ''hi'')
   \<and> 4 + length ''/d'' \<le> length (take 6 (concat (upload_message ''/d'' ''a.pdf'' ''hi'')))
   \<and> fst (snd (handle_s1_request S2_cfg (\<lambda>c f. f) ''JUNKJUNK'' ''/home/u''
                \<lparr>files = [], dirs = [''/'', ''/d'']\<rparr>
                (take 6 (concat (upload_message ''/d'' ''a.pdf'' ''hi''))
                 # map (\<lambda>b. [b]) (drop 6 (concat (upload_message ''/d'' ''a.pdf'' ''hi''))))))
       = fst (snd (handle_s1_request S2_cfg (\<lambda>c f. f) ''JUNKJUNK'' ''/home/u''
                \<lparr>files = [], dirs = [''/'', ''/d'']\<rparr>
                [concat (upload_message ''/d'' ''a.pdf'' ''hi'')]))"
proof -
  have h1: "0 < length ''/d''" "length ''/d'' < 1024" "CHR 0x00 \<notin> set ''/d''" by simp_all
  have h2: "0 < length ''a.pdf''" "length ''a.pdf'' < 256" "CHR 0x00 \<notin> set ''a.pdf''" by simp_all
  have h3: "length ''hi'' < 2 ^ 63" by simp
  have h4: "concat (take 6 (concat (upload_message ''/d'' ''a.pdf'' ''hi''))
           # map (\<lambda>b. [b]) (drop 6 (concat (upload_message ''/d'' ''a.pdf'' ''hi''))))
     = concat (upload_message ''/d'' ''a.pdf'' ''hi'')"
    by code_simp
  have h5: "4 + length ''/d'' \<le> length (take 6 (concat (upload_message ''/d'' ''a.pdf'' ''hi'')))"
    by (simp add: concat_upload_message)
  from upload_decoder_fragment_independent [OF h1 h2 h3 h4 h5, of S2_cfg "\<lambda>c f. f" "''JUNKJUNK''" "''/home/u''"
         "\<lparr>files = [], dirs = [''/'', ''/d'']\<rparr>"] h4 h5
  show ?thesis by blast
qed

section \<open>Upload followed by download\<close>










end
